theory Spec2Isabelle
  imports Complex_Main "HOL-Library.Word"
begin

section \<open>The inspection form of \<^verbatim>\<open>frontend/src/CheckForm.tsx\<close>\<close>

text \<open>
  The component \<^verbatim>\<open>CheckForm\<close> keeps eight pieces of React state and changes them in
  three places: the \<^verbatim>\<open>onChange\<close> handlers of the inputs, \<^verbatim>\<open>handleItemStatusChange\<close>
  and the asynchronous \<^verbatim>\<open>handleSubmit\<close>. The state is a record that every handler takes
  and returns; what a handler does to the outside (the request, the toast, the
  \<^verbatim>\<open>onSuccess\<close> hook) is a list of effects in the order of the source.
\<close>

subsection \<open>Strings\<close>

text \<open>
  A JavaScript string is a sequence of 16-bit code units. \<^verbatim>\<open>str\<close> writes a literal of
  the source.
\<close>

type_synonym jsstring = "16 word list"

definition str :: "string \<Rightarrow> jsstring" where
  "str cs = map of_char cs"

text \<open>
  \<^verbatim>\<open>String.prototype.trim\<close> removes, at both ends, the code units of the ECMAScript
  productions WhiteSpace (TAB, VT, FF, SP, NBSP, ZWNBSP and the category Zs) and
  LineTerminator (LF, CR, LS, PS).
\<close>

definition is_white_space :: "16 word \<Rightarrow> bool" where
  "is_white_space c \<longleftrightarrow>
     c = 0x0009 \<or> c = 0x000A \<or> c = 0x000B \<or> c = 0x000C \<or> c = 0x000D \<or> c = 0x0020 \<or>
     c = 0x00A0 \<or> c = 0x1680 \<or> (0x2000 \<le> c \<and> c \<le> 0x200A) \<or> c = 0x2028 \<or>
     c = 0x2029 \<or> c = 0x202F \<or> c = 0x205F \<or> c = 0x3000 \<or> c = 0xFEFF"

definition trimStart :: "jsstring \<Rightarrow> jsstring" where
  "trimStart s = dropWhile is_white_space s"

definition trim :: "jsstring \<Rightarrow> jsstring" where
  "trim s = rev (dropWhile is_white_space (rev (trimStart s)))"

subsection \<open>The checklist\<close>

text \<open>
  Modelled from the spec: the types \<^verbatim>\<open>CheckItemKey\<close> and \<^verbatim>\<open>CheckItem\<close> of \<^verbatim>\<open>./types\<close>, a
  closed enumeration of five keys (the ones \<^verbatim>\<open>CHECK_ITEMS\<close> lists at lines 6-12) and a
  key with a status, which line 35 types as \<^verbatim>\<open>"OK" | "FAIL"\<close>.
\<close>

datatype CheckItemKey = TYRES | BRAKES | LIGHTS | OIL | COOLANT

datatype Status = OK | FAIL

record CheckItem =
  key :: CheckItemKey
  status :: Status

definition CHECK_ITEMS :: "CheckItemKey list" where
  "CHECK_ITEMS = [TYRES, BRAKES, LIGHTS, OIL, COOLANT]"

text \<open>The initial value of \<^verbatim>\<open>items\<close> (lines 24-26), built again at line 59.\<close>

definition initial_items :: "CheckItem list" where
  "initial_items = map (\<lambda>k. \<lparr>key = k, status = OK\<rparr>) CHECK_ITEMS"

subsection \<open>The state of the form\<close>

text \<open>
  Modelled from the spec: the type \<^verbatim>\<open>Vehicle\<close> of \<^verbatim>\<open>./types\<close>, an opaque string \<^verbatim>\<open>id\<close>, the
  strings \<^verbatim>\<open>registration\<close>, \<^verbatim>\<open>make\<close> and \<^verbatim>\<open>model\<close>, and an integer \<^verbatim>\<open>year\<close>; the select
  control reads these five fields (lines 104-108).
\<close>

record Vehicle =
  vehicle_id :: jsstring
  vehicle_registration :: jsstring
  vehicle_make :: jsstring
  vehicle_model :: jsstring
  vehicle_year :: int

record CheckForm =
  vehicles :: "Vehicle list"
  selectedVehicle :: jsstring
  odometerKm :: jsstring
  "note" :: jsstring
  items :: "CheckItem list"
  loading :: bool
  error :: "jsstring option"
  validationErrors :: "jsstring list"

text \<open>The arguments of the eight \<^verbatim>\<open>useState\<close> calls (lines 20-29).\<close>

definition initial_form :: CheckForm where
  "initial_form =
     \<lparr>vehicles = [], selectedVehicle = [], odometerKm = [], note = [],
      items = initial_items, loading = False, error = None, validationErrors = []\<rparr>"

text \<open>
  Lines 35-39. \<^verbatim>\<open>setItems\<close> receives an updater, which maps over the previous list and
  rebuilds the entries whose key is the given one with the new status.
\<close>

definition item_status_update :: "CheckItemKey \<Rightarrow> Status \<Rightarrow> CheckItem list \<Rightarrow> CheckItem list" where
  "item_status_update k st prev =
     map (\<lambda>item. if key item = k then item\<lparr>status := st\<rparr> else item) prev"

definition handleItemStatusChange :: "CheckItemKey \<Rightarrow> Status \<Rightarrow> CheckForm \<Rightarrow> CheckForm" where
  "handleItemStatusChange k st s = s\<lparr>items := item_status_update k st (items s)\<rparr>"

subsection \<open>Numbers\<close>

text \<open>
  A JavaScript Number is a binary64 value: \<^verbatim>\<open>NaN\<close>, an infinity with its sign, or a
  finite value with a sign, a significand \<open>m\<close> and an exponent \<open>e\<close>, standing for
  \<open>m * 2 ^ e\<close>. Every finite value is written in one way only: \<open>m < 2 ^ 53\<close> and
  \<open>- 1074 \<le> e \<le> 971\<close>, with \<open>2 ^ 52 \<le> m\<close> unless \<open>e = - 1074\<close> (a subnormal
  value, or zero when \<open>m = 0\<close>).
\<close>

datatype jsnumber = NaN | Infinity bool | Finite bool nat int

text \<open>The values that are written in that one way.\<close>

fun is_binary64 :: "jsnumber \<Rightarrow> bool" where
  "is_binary64 NaN = True"
| "is_binary64 (Infinity neg) = True"
| "is_binary64 (Finite neg m e) \<longleftrightarrow>
     m < 2 ^ 53 \<and> - 1074 \<le> e \<and> e \<le> 971 \<and> (2 ^ 52 \<le> m \<or> e = - 1074)"

fun bit_length :: "nat \<Rightarrow> nat" where
  "bit_length n = (if n = 0 then 0 else Suc (bit_length (n div 2)))"

declare bit_length.simps [simp del]

text \<open>The fraction \<open>n / d\<close> divided by \<open>2 ^ e\<close>, again as a fraction.\<close>

definition scaled :: "nat \<Rightarrow> nat \<Rightarrow> int \<Rightarrow> nat \<times> nat" where
  "scaled n d e = (if 0 \<le> e then (n, d * 2 ^ nat e) else (n * 2 ^ nat (- e), d))"

text \<open>The integer nearest to \<open>n / d\<close>, the even one of the two when it lies half way.\<close>

definition round_half_even :: "nat \<Rightarrow> nat \<Rightarrow> nat" where
  "round_half_even n d =
     (let q = n div d; r = n mod d
      in if 2 * r < d then q
         else if d < 2 * r then q + 1
         else if even q then q else q + 1)"

text \<open>
  The Number value of the fraction \<open>n / d\<close> with a sign: the binary64 value nearest to
  it, ties to the even significand (IEEE 754 roundTiesToEven). The exponent is the one
  that puts \<open>n / d / 2 ^ e\<close> in the range from \<open>2 ^ 52\<close> to \<open>2 ^ 53\<close>, and not less
  than \<open>- 1074\<close>; it is found from the bit lengths of \<open>n\<close> and \<open>d\<close>, which give the
  binary logarithm of the fraction to within one. A significand that rounds up to
  \<open>2 ^ 53\<close> moves to the next exponent, and a value beyond the largest exponent is an
  infinity.
\<close>

definition to_binary64 :: "bool \<Rightarrow> nat \<Rightarrow> nat \<Rightarrow> jsnumber" where
  "to_binary64 neg n d =
     (if n = 0 then Finite neg 0 (- 1074)
      else
        (let k = int (bit_length n) - int (bit_length d);
             e0 = max (- 1074) (k - 53);
             (n0, d0) = scaled n d e0;
             e1 = (if 2 ^ 53 * d0 \<le> n0 then e0 + 1 else e0);
             (n1, d1) = scaled n d e1;
             m = round_half_even n1 d1;
             (m2, e2) = (if m = 2 ^ 53 then (2 ^ 52, e1 + 1) else (m, e1))
         in if 971 < e2 then Infinity neg else Finite neg m2 e2))"

subsection \<open>The request\<close>

text \<open>
  \<^verbatim>\<open>parseFloat\<close> skips leading white space and reads the longest prefix that is a
  StrDecimalLiteral: an optional sign, then \<^verbatim>\<open>Infinity\<close>, or digits with an optional
  fraction and an optional exponent; with no such prefix the result is \<^verbatim>\<open>NaN\<close>. The
  decimal read, the digits \<open>m\<close> times \<open>10 ^ e\<close>, is then rounded to a Number.
\<close>

definition is_digit :: "16 word \<Rightarrow> bool" where
  "is_digit c \<longleftrightarrow> 0x30 \<le> c \<and> c \<le> 0x39"

definition digits_value :: "jsstring \<Rightarrow> nat" where
  "digits_value ds = foldl (\<lambda>a c. 10 * a + unat (c - 0x30)) 0 ds"

definition read_sign :: "jsstring \<Rightarrow> bool \<times> jsstring" where
  "read_sign s =
     (case s of
        [] \<Rightarrow> (False, [])
      | c # r \<Rightarrow> if c = 0x2B then (False, r) else if c = 0x2D then (True, r) else (False, s))"

definition read_exponent :: "jsstring \<Rightarrow> int" where
  "read_exponent s =
     (case s of
        [] \<Rightarrow> 0
      | c # r \<Rightarrow>
          if c = 0x65 \<or> c = 0x45 then
            (let (neg, r') = read_sign r; ds = takeWhile is_digit r'
             in if ds = [] then 0
                else if neg then - int (digits_value ds) else int (digits_value ds))
          else 0)"

text \<open>The Number value of \<open>m * 10 ^ e\<close> with a sign.\<close>

definition decimal_to_number :: "bool \<Rightarrow> nat \<Rightarrow> int \<Rightarrow> jsnumber" where
  "decimal_to_number neg m e =
     (if 0 \<le> e then to_binary64 neg (m * 10 ^ nat e) 1 else to_binary64 neg m (10 ^ nat (- e)))"

definition parseFloat :: "jsstring \<Rightarrow> jsnumber" where
  "parseFloat s =
     (let (neg, u) = read_sign (trimStart s)
      in if take 8 u = str ''Infinity'' then Infinity neg
         else
           (let ip = takeWhile is_digit u;
                r1 = dropWhile is_digit u;
                (fp, r2) =
                  (case r1 of
                     [] \<Rightarrow> ([], [])
                   | c # r \<Rightarrow>
                       if c = 0x2E then (takeWhile is_digit r, dropWhile is_digit r)
                       else ([], r1))
            in if ip = [] \<and> fp = [] then NaN
               else decimal_to_number neg (digits_value (ip @ fp))
                      (read_exponent r2 - int (length fp))))"

text \<open>
  The argument of \<^verbatim>\<open>api.createCheck\<close> (lines 48-53). The spread at line 52 adds the
  property \<^verbatim>\<open>note\<close> when \<^verbatim>\<open>note.trim()\<close> is truthy, that is, not the empty string.
\<close>

record Check =
  payload_vehicleId :: jsstring
  payload_odometerKm :: jsnumber
  payload_items :: "CheckItem list"
  payload_note :: "jsstring option"

definition check_payload :: "CheckForm \<Rightarrow> Check" where
  "check_payload s =
     \<lparr>payload_vehicleId = selectedVehicle s,
      payload_odometerKm = parseFloat (odometerKm s),
      payload_items = items s,
      payload_note = (if trim (note s) \<noteq> [] then Some (trim (note s)) else None)\<rparr>"

subsection \<open>The error of a rejected request\<close>

text \<open>
  Modelled from the spec: the type \<^verbatim>\<open>ErrorResponse\<close> of \<^verbatim>\<open>./types\<close>, to which line 63
  casts the caught value. The spec gives its shape as
  \<^verbatim>\<open>{ error: { details?: [{ field: string, reason: string }] } }\<close>; the handler reads
  \<^verbatim>\<open>error\<close> with \<^verbatim>\<open>?.\<close>, so a caught value with no such property (an \<^verbatim>\<open>Error\<close> of the
  network layer, say) is \<open>response_error = None\<close>.
\<close>

record ValidationErrorDetail =
  field :: jsstring
  reason :: jsstring

record ErrorBody =
  details :: "ValidationErrorDetail list option"

record ErrorResponse =
  response_error :: "ErrorBody option"

text \<open>
  Modelled from the spec: \<^verbatim>\<open>api.createCheck\<close> of \<^verbatim>\<open>./api\<close> is an asynchronous call that
  the form awaits; the model takes the way it settles as a parameter.
\<close>

datatype ApiResult = Resolved | Rejected ErrorResponse

text \<open>
  Modelled from the spec: \<^verbatim>\<open>ToastType\<close> of \<^verbatim>\<open>./Toast\<close>, the kinds \<^verbatim>\<open>"success"\<close> and
  \<^verbatim>\<open>"error"\<close> of a notification.
\<close>

datatype ToastType = ToastSuccess | ToastError

text \<open>What \<^verbatim>\<open>handleSubmit\<close> does to its surroundings, in the order of the calls.\<close>

datatype Effect =
    PreventDefault
  | CreateCheck Check
  | ShowToast jsstring ToastType
  | OnSuccess

subsection \<open>\<^verbatim>\<open>handleSubmit\<close>\<close>

text \<open>Lines 42-53: up to the point where the handler awaits the request.\<close>

definition submit_start :: "CheckForm \<Rightarrow> CheckForm \<times> Effect list" where
  "submit_start s =
     (s\<lparr>error := None, validationErrors := [], loading := True\<rparr>,
      [PreventDefault, CreateCheck (check_payload s)])"

text \<open>Lines 55-61: the rest of the \<^verbatim>\<open>try\<close> block, after the request resolved.\<close>

definition on_resolved :: "CheckForm \<Rightarrow> CheckForm \<times> Effect list" where
  "on_resolved s =
     (s\<lparr>selectedVehicle := [], odometerKm := [], note := [], items := initial_items\<rparr>,
      [ShowToast (str ''Inspection submitted successfully.'') ToastSuccess, OnSuccess])"

text \<open>
  Line 64 tests \<^verbatim>\<open>errorResponse.error?.details\<close> for truthiness: the value is
  \<^verbatim>\<open>undefined\<close> when \<^verbatim>\<open>error\<close> or \<^verbatim>\<open>details\<close> is absent, and an array, which is truthy
  whatever its length, otherwise.
\<close>

definition error_details :: "ErrorResponse \<Rightarrow> ValidationErrorDetail list option" where
  "error_details err = (case response_error err of None \<Rightarrow> None | Some b \<Rightarrow> details b)"

text \<open>
  Lines 62-74: the \<^verbatim>\<open>catch\<close> block. \<^verbatim>\<open>details[0] ?? "Validation failed."\<close> is the first
  mapped string, and the fallback when the mapped list is empty.
\<close>

definition on_rejected :: "ErrorResponse \<Rightarrow> CheckForm \<Rightarrow> CheckForm \<times> Effect list" where
  "on_rejected err s =
     (case error_details err of
        Some ds \<Rightarrow>
          (let details = map (\<lambda>d. field d @ str '': '' @ reason d) ds
           in (s\<lparr>validationErrors := details\<rparr>,
               [ShowToast (case details of [] \<Rightarrow> str ''Validation failed.'' | m # _ \<Rightarrow> m)
                  ToastError]))
      | None \<Rightarrow>
          (let message = str ''Failed to submit check. Please try again.''
           in (s\<lparr>error := Some message\<rparr>, [ShowToast message ToastError])))"

text \<open>
  Lines 55-77: what runs once the request has settled, on the state of that moment; the
  \<^verbatim>\<open>finally\<close> block (line 76) follows either branch.
\<close>

definition submit_settle :: "ApiResult \<Rightarrow> CheckForm \<Rightarrow> CheckForm \<times> Effect list" where
  "submit_settle r s =
     (let (s', fx) = (case r of Resolved \<Rightarrow> on_resolved s | Rejected err \<Rightarrow> on_rejected err s)
      in (s'\<lparr>loading := False\<rparr>, fx))"

text \<open>
  While the request is in flight the inputs stay enabled, and the vehicle list of the
  effect at lines 31-33 may arrive: these are the state changes that can fall between
  the two halves of a submission (lines 32, 101, 118, 140, 150 and 165).
\<close>

datatype Edit =
    SetVehicles "Vehicle list"
  | SetSelectedVehicle jsstring
  | SetOdometerKm jsstring
  | SetNote jsstring
  | ItemStatusChange CheckItemKey Status

fun apply_edit :: "CheckForm \<Rightarrow> Edit \<Rightarrow> CheckForm" where
  "apply_edit s (SetVehicles vs) = s\<lparr>vehicles := vs\<rparr>"
| "apply_edit s (SetSelectedVehicle v) = s\<lparr>selectedVehicle := v\<rparr>"
| "apply_edit s (SetOdometerKm t) = s\<lparr>odometerKm := t\<rparr>"
| "apply_edit s (SetNote t) = s\<lparr>note := t\<rparr>"
| "apply_edit s (ItemStatusChange k st) = handleItemStatusChange k st s"

text \<open>
  A whole submission: the start, the edits made during the request, the settlement.
  \<^verbatim>\<open>handleSubmit\<close> is the case of no edit in between.
\<close>

definition submission :: "Edit list \<Rightarrow> ApiResult \<Rightarrow> CheckForm \<Rightarrow> CheckForm \<times> Effect list" where
  "submission es r s =
     (let (s1, fx1) = submit_start s;
          (s2, fx2) = submit_settle r (foldl apply_edit s1 es)
      in (s2, fx1 @ fx2))"

definition handleSubmit :: "ApiResult \<Rightarrow> CheckForm \<Rightarrow> CheckForm \<times> Effect list" where
  "handleSubmit r s = submission [] r s"

text \<open>Line 173: the submit button is disabled while \<^verbatim>\<open>loading\<close> is set.\<close>

definition submit_disabled :: "CheckForm \<Rightarrow> bool" where
  "submit_disabled s = loading s"

subsection \<open>Notions of the specification\<close>

text \<open>A sequence of \<^verbatim>\<open>setStatus\<close> calls, each a key and a status, applied to a form.\<close>

definition status_changes :: "(CheckItemKey \<times> Status) list \<Rightarrow> CheckForm \<Rightarrow> CheckForm" where
  "status_changes calls s = foldl (\<lambda>s (k, st). handleItemStatusChange k st s) s calls"

text \<open>
  The two failure outcomes, in the words of the specification, as what is seen once a
  submission is over. ValidationFailed: the list of messages is retained for display,
  there is no generic message, and a notification carries the first message (or a
  fallback when there is none). GenericFailed: the fixed message is recorded, there is
  no validation message, and a notification carries the same message.
\<close>

definition validation_failed :: "jsstring list \<Rightarrow> CheckForm \<times> Effect list \<Rightarrow> bool" where
  "validation_failed ms out \<longleftrightarrow>
     validationErrors (fst out) = ms \<and> error (fst out) = None \<and>
     ShowToast (case ms of [] \<Rightarrow> str ''Validation failed.'' | m # _ \<Rightarrow> m) ToastError
       \<in> set (snd out)"

definition generic_failed :: "CheckForm \<times> Effect list \<Rightarrow> bool" where
  "generic_failed out \<longleftrightarrow>
     error (fst out) = Some (str ''Failed to submit check. Please try again.'') \<and>
     validationErrors (fst out) = [] \<and>
     ShowToast (str ''Failed to submit check. Please try again.'') ToastError \<in> set (snd out)"

section \<open>Properties\<close>

subsection \<open>The checklist\<close>

lemma item_status_update_length: "length (item_status_update k st xs) = length xs"
  by (simp add: item_status_update_def)

lemma item_status_update_keys: "map key (item_status_update k st xs) = map key xs"
  by (induction xs) (simp_all add: item_status_update_def)

lemma item_status_update_nth:
  "i < length xs \<Longrightarrow>
   item_status_update k st xs ! i =
     (if key (xs ! i) = k then (xs ! i)\<lparr>status := st\<rparr> else xs ! i)"
  by (simp add: item_status_update_def)

lemma initial_items_keys: "map key initial_items = CHECK_ITEMS"
  by (simp add: initial_items_def comp_def)

lemma initial_items_explicit:
  "items initial_form =
     [\<lparr>key = TYRES, status = OK\<rparr>, \<lparr>key = BRAKES, status = OK\<rparr>,
      \<lparr>key = LIGHTS, status = OK\<rparr>, \<lparr>key = OIL, status = OK\<rparr>,
      \<lparr>key = COOLANT, status = OK\<rparr>]"
  by (simp add: initial_form_def initial_items_def CHECK_ITEMS_def)

lemma status_cases: "st = OK \<or> st = FAIL"
  by (cases st) simp_all

lemma key_cases: "k \<in> set CHECK_ITEMS"
  by (cases k) (simp_all add: CHECK_ITEMS_def)

lemma status_changes_keys: "map key (items (status_changes calls s)) = map key (items s)"
  unfolding status_changes_def
proof (induction calls arbitrary: s)
  case Nil
  show ?case by simp
next
  case (Cons c calls)
  obtain k st where c: "c = (k, st)" by (cases c)
  have "map key (items (handleItemStatusChange k st s)) = map key (items s)"
    by (simp add: handleItemStatusChange_def item_status_update_keys)
  with Cons.IH [of "handleItemStatusChange k st s"] c show ?case by simp
qed

text \<open>
  Claim C6. The checklist starts as the five keys TYRES, BRAKES, LIGHTS, OIL, COOLANT, all
  OK; after any sequence of status changes it still has exactly five entries, one per
  key in the same order, without duplicate or missing key, each status OK or FAIL.
\<close>

theorem checklist_closure:
  "items initial_form =
     [\<lparr>key = TYRES, status = OK\<rparr>, \<lparr>key = BRAKES, status = OK\<rparr>,
      \<lparr>key = LIGHTS, status = OK\<rparr>, \<lparr>key = OIL, status = OK\<rparr>,
      \<lparr>key = COOLANT, status = OK\<rparr>]
   \<and> map key (items (status_changes calls initial_form)) = [TYRES, BRAKES, LIGHTS, OIL, COOLANT]
   \<and> length (items (status_changes calls initial_form)) = 5
   \<and> distinct (map key (items (status_changes calls initial_form)))
   \<and> set (map key (items (status_changes calls initial_form))) = UNIV
   \<and> (\<forall>item \<in> set (items (status_changes calls initial_form)).
         status item = OK \<or> status item = FAIL)"
proof -
  define result where "result = items (status_changes calls initial_form)"
  have k: "map key result = [TYRES, BRAKES, LIGHTS, OIL, COOLANT]"
    unfolding result_def status_changes_keys
    by (simp add: initial_form_def initial_items_keys CHECK_ITEMS_def)
  have "length (map key result) = 5"
    by (simp only: k) simp
  then have l: "length result = 5"
    by simp
  have u: "set (map key result) = UNIV"
  proof -
    have "\<And>x. x \<in> set (map key result)"
      using key_cases by (simp only: k CHECK_ITEMS_def)
    then show ?thesis by blast
  qed
  have d: "distinct (map key result)"
    by (simp only: k) simp
  from initial_items_explicit k l d u status_cases show ?thesis
    unfolding result_def by blast
qed

theorem checklist_closure_witness:
  "items (status_changes [(OIL, FAIL), (TYRES, FAIL), (OIL, OK)] initial_form) =
     [\<lparr>key = TYRES, status = FAIL\<rparr>, \<lparr>key = BRAKES, status = OK\<rparr>,
      \<lparr>key = LIGHTS, status = OK\<rparr>, \<lparr>key = OIL, status = OK\<rparr>,
      \<lparr>key = COOLANT, status = OK\<rparr>]
   \<and> length (items (status_changes [(OIL, FAIL), (TYRES, FAIL), (OIL, OK)] initial_form)) = 5
   \<and> \<lparr>key = TYRES, status = FAIL\<rparr>
       \<in> set (items (status_changes [(OIL, FAIL), (TYRES, FAIL), (OIL, OK)] initial_form))
   \<and> distinct (map key (items (status_changes [(OIL, FAIL), (TYRES, FAIL), (OIL, OK)] initial_form)))"
proof -
  have e: "items (status_changes [(OIL, FAIL), (TYRES, FAIL), (OIL, OK)] initial_form) =
     [\<lparr>key = TYRES, status = FAIL\<rparr>, \<lparr>key = BRAKES, status = OK\<rparr>,
      \<lparr>key = LIGHTS, status = OK\<rparr>, \<lparr>key = OIL, status = OK\<rparr>,
      \<lparr>key = COOLANT, status = OK\<rparr>]"
    by (simp add: status_changes_def handleItemStatusChange_def item_status_update_def
        initial_form_def initial_items_def CHECK_ITEMS_def)
  have m: "\<lparr>key = TYRES, status = FAIL\<rparr>
       \<in> set (items (status_changes [(OIL, FAIL), (TYRES, FAIL), (OIL, OK)] initial_form))"
    by (simp only: e) simp
  from checklist_closure [of "[(OIL, FAIL), (TYRES, FAIL), (OIL, OK)]"] e m show ?thesis
    by blast
qed

text \<open>
  Claim C7. For every checklist, key and status, the status change keeps the number and
  the order of the entries and their keys; an entry with the given key takes the new
  status and every other entry is the one it was. The form's other fields stay as they
  are, and the operation always returns a checklist: it has no failing case.
\<close>

theorem set_status_frame:
  "length (item_status_update k st xs) = length xs
   \<and> map key (item_status_update k st xs) = map key xs
   \<and> (\<forall>i < length xs.
         item_status_update k st xs ! i =
           (if key (xs ! i) = k then (xs ! i)\<lparr>status := st\<rparr> else xs ! i))
   \<and> items (handleItemStatusChange k st s) = item_status_update k st (items s)
   \<and> (handleItemStatusChange k st s)\<lparr>items := items s\<rparr> = s"
  by (simp add: item_status_update_length item_status_update_keys item_status_update_nth
      handleItemStatusChange_def)

theorem set_status_frame_witness:
  "item_status_update LIGHTS FAIL (items initial_form) =
     [\<lparr>key = TYRES, status = OK\<rparr>, \<lparr>key = BRAKES, status = OK\<rparr>,
      \<lparr>key = LIGHTS, status = FAIL\<rparr>, \<lparr>key = OIL, status = OK\<rparr>,
      \<lparr>key = COOLANT, status = OK\<rparr>]
   \<and> (2::nat) < length (items initial_form)
   \<and> item_status_update LIGHTS FAIL (items initial_form) ! 2 =
       (items initial_form ! 2)\<lparr>status := FAIL\<rparr>
   \<and> item_status_update LIGHTS FAIL (items initial_form) ! 3 = items initial_form ! 3"
proof -
  have l: "(2::nat) < length (items initial_form)" "(3::nat) < length (items initial_form)"
    by (simp_all add: initial_items_explicit)
  have k: "key (items initial_form ! 2) = LIGHTS" "key (items initial_form ! 3) \<noteq> LIGHTS"
    by (simp_all add: initial_items_explicit)
  have e: "item_status_update LIGHTS FAIL (items initial_form) =
     [\<lparr>key = TYRES, status = OK\<rparr>, \<lparr>key = BRAKES, status = OK\<rparr>,
      \<lparr>key = LIGHTS, status = FAIL\<rparr>, \<lparr>key = OIL, status = OK\<rparr>,
      \<lparr>key = COOLANT, status = OK\<rparr>]"
    by (simp add: initial_items_explicit item_status_update_def)
  from set_status_frame [of LIGHTS FAIL "items initial_form" initial_form]
  have n: "\<forall>i < length (items initial_form).
             item_status_update LIGHTS FAIL (items initial_form) ! i =
               (if key (items initial_form ! i) = LIGHTS
                then (items initial_form ! i)\<lparr>status := FAIL\<rparr> else items initial_form ! i)"
    by blast
  from n l(1) have "item_status_update LIGHTS FAIL (items initial_form) ! 2 =
      (if key (items initial_form ! 2) = LIGHTS
       then (items initial_form ! 2)\<lparr>status := FAIL\<rparr> else items initial_form ! 2)"
    by blast
  with k(1) have a: "item_status_update LIGHTS FAIL (items initial_form) ! 2 =
      (items initial_form ! 2)\<lparr>status := FAIL\<rparr>"
    by simp
  from n l(2) have "item_status_update LIGHTS FAIL (items initial_form) ! 3 =
      (if key (items initial_form ! 3) = LIGHTS
       then (items initial_form ! 3)\<lparr>status := FAIL\<rparr> else items initial_form ! 3)"
    by blast
  with k(2) have b: "item_status_update LIGHTS FAIL (items initial_form) ! 3 = items initial_form ! 3"
    by simp
  from e l(1) a b show ?thesis
    by blast
qed

subsection \<open>Trimming\<close>

lemma trim_decomposition:
  "\<exists>p q. s = p @ trim s @ q \<and> list_all is_white_space p \<and> list_all is_white_space q"
proof -
  define t where "t = dropWhile is_white_space s"
  have s: "s = takeWhile is_white_space s @ t"
    by (simp add: t_def)
  have "rev (dropWhile is_white_space (rev t)) @ rev (takeWhile is_white_space (rev t))
          = rev (takeWhile is_white_space (rev t) @ dropWhile is_white_space (rev t))"
    by (simp only: rev_append)
  also have "\<dots> = rev (rev t)"
    by (simp only: takeWhile_dropWhile_id)
  also have "\<dots> = t"
    by simp
  finally have t: "t = trim s @ rev (takeWhile is_white_space (rev t))"
    by (simp add: trim_def trimStart_def t_def)
  have p: "list_all is_white_space (takeWhile is_white_space s)"
    by (simp add: list_all_iff) (meson set_takeWhileD)
  have q: "list_all is_white_space (rev (takeWhile is_white_space (rev t)))"
    by (simp add: list_all_iff) (meson set_takeWhileD)
  from s t have "s = takeWhile is_white_space s @ trim s @ rev (takeWhile is_white_space (rev t))"
    by simp
  with p q show ?thesis by blast
qed

lemma dropWhile_last: "dropWhile P xs \<noteq> [] \<Longrightarrow> last (dropWhile P xs) = last xs"
  by (induction xs) (auto split: if_splits)

lemma trim_ends:
  assumes "trim s \<noteq> []"
  shows "\<not> is_white_space (hd (trim s))" and "\<not> is_white_space (last (trim s))"
proof -
  define t where "t = dropWhile is_white_space s"
  define u where "u = dropWhile is_white_space (rev t)"
  have ts: "trim s = rev u"
    by (simp add: trim_def trimStart_def t_def u_def)
  with assms have u: "u \<noteq> []"
    by simp
  then have t: "t \<noteq> []"
    by (auto simp: u_def)
  have "last (trim s) = hd u"
    using u by (simp add: ts last_rev)
  moreover have "\<not> is_white_space (hd u)"
    using u unfolding u_def by (rule hd_dropWhile)
  ultimately show "\<not> is_white_space (last (trim s))"
    by simp
  have "hd (trim s) = last u"
    using u by (simp add: ts hd_rev)
  also have "\<dots> = last (rev t)"
    using u unfolding u_def by (rule dropWhile_last)
  also have "\<dots> = hd t"
    using t by (simp add: last_rev)
  finally have "hd (trim s) = hd t" .
  moreover have "\<not> is_white_space (hd t)"
    using t unfolding t_def by (rule hd_dropWhile)
  ultimately show "\<not> is_white_space (hd (trim s))"
    by simp
qed

lemma trim_blank: "trim (str ''   '') = []"
  by (simp add: trim_def trimStart_def str_def is_white_space_def)

lemma trim_hi: "trim (str ''  hi  '') = str ''hi''"
  by (simp add: trim_def trimStart_def str_def is_white_space_def)

subsection \<open>The two halves of a submission\<close>

lemma apply_edit_loading: "loading (apply_edit s e) = loading s"
  by (cases e) (simp_all add: handleItemStatusChange_def)

lemma apply_edit_error: "error (apply_edit s e) = error s"
  by (cases e) (simp_all add: handleItemStatusChange_def)

lemma apply_edit_validationErrors: "validationErrors (apply_edit s e) = validationErrors s"
  by (cases e) (simp_all add: handleItemStatusChange_def)

lemma edits_loading: "loading (foldl apply_edit s es) = loading s"
  by (induction es arbitrary: s) (simp_all add: apply_edit_loading)

lemma edits_error: "error (foldl apply_edit s es) = error s"
  by (induction es arbitrary: s) (simp_all add: apply_edit_error)

lemma edits_validationErrors: "validationErrors (foldl apply_edit s es) = validationErrors s"
  by (induction es arbitrary: s) (simp_all add: apply_edit_validationErrors)

lemma submit_start_state:
  "fst (submit_start s) = s\<lparr>error := None, validationErrors := [], loading := True\<rparr>"
  by (simp add: submit_start_def)

lemma submit_start_effects:
  "snd (submit_start s) = [PreventDefault, CreateCheck (check_payload s)]"
  by (simp add: submit_start_def)

lemma submission_state:
  "fst (submission es r s) = fst (submit_settle r (foldl apply_edit (fst (submit_start s)) es))"
  by (simp add: submission_def split: prod.splits)

lemma submission_effects:
  "snd (submission es r s) =
     snd (submit_start s) @ snd (submit_settle r (foldl apply_edit (fst (submit_start s)) es))"
  by (simp add: submission_def split: prod.splits)

lemma settle_resolved:
  "submit_settle Resolved s =
     (s\<lparr>selectedVehicle := [], odometerKm := [], note := [], items := initial_items,
        loading := False\<rparr>,
      [ShowToast (str ''Inspection submitted successfully.'') ToastSuccess, OnSuccess])"
  by (simp add: submit_settle_def on_resolved_def)

lemma settle_rejected_details:
  "error_details err = Some ds \<Longrightarrow>
   submit_settle (Rejected err) s =
     (s\<lparr>validationErrors := map (\<lambda>d. field d @ str '': '' @ reason d) ds, loading := False\<rparr>,
      [ShowToast (case map (\<lambda>d. field d @ str '': '' @ reason d) ds of
                    [] \<Rightarrow> str ''Validation failed.'' | m # _ \<Rightarrow> m) ToastError])"
  by (simp add: submit_settle_def on_rejected_def Let_def)

lemma settle_rejected_plain:
  "error_details err = None \<Longrightarrow>
   submit_settle (Rejected err) s =
     (s\<lparr>error := Some (str ''Failed to submit check. Please try again.''), loading := False\<rparr>,
      [ShowToast (str ''Failed to submit check. Please try again.'') ToastError])"
  by (simp add: submit_settle_def on_rejected_def Let_def)

lemma settle_loading: "\<not> loading (fst (submit_settle r s))"
  by (cases r)
    (simp_all add: submit_settle_def on_resolved_def on_rejected_def Let_def
      split: option.splits prod.splits)

subsection \<open>Numbers\<close>

lemma bit_length_0: "bit_length 0 = 0"
  by (simp add: bit_length.simps)

lemma bit_length_pos: "0 < n \<Longrightarrow> bit_length n = Suc (bit_length (n div 2))"
  by (simp add: bit_length.simps [of n])

lemma bit_length_eq: "2 ^ k \<le> n \<Longrightarrow> n < 2 ^ Suc k \<Longrightarrow> bit_length n = Suc k"
proof (induction k arbitrary: n)
  case 0
  then have "n = 1" by simp
  then show ?case by (simp add: bit_length_pos bit_length_0)
next
  case (Suc k)
  from Suc.prems have "2 ^ k \<le> n div 2" "n div 2 < 2 ^ Suc k"
    by auto
  then have "bit_length (n div 2) = Suc k"
    by (rule Suc.IH)
  moreover from Suc.prems have "0 < n"
    by (cases n) auto
  ultimately show ?case
    by (simp add: bit_length_pos)
qed

lemma bit_length_bounds:
  "0 < n \<Longrightarrow> 2 ^ (bit_length n - 1) \<le> n \<and> n < 2 ^ bit_length n"
proof (induction n rule: bit_length.induct)
  case (1 n)
  show ?case
  proof (cases "n div 2 = 0")
    case True
    with 1 have "n = 1" by (cases n) auto
    then show ?thesis by (simp add: bit_length_pos bit_length_0)
  next
    case False
    with 1 have ih: "2 ^ (bit_length (n div 2) - 1) \<le> n div 2"
      "n div 2 < 2 ^ bit_length (n div 2)"
      by auto
    from False have p: "0 < bit_length (n div 2)"
      by (simp add: bit_length_pos)
    from 1 have b: "bit_length n = Suc (bit_length (n div 2))"
      by (simp add: bit_length_pos)
    from ih(1) have "2 * 2 ^ (bit_length (n div 2) - 1) \<le> n"
      by linarith
    with p have l: "2 ^ bit_length (n div 2) \<le> n"
      by (cases "bit_length (n div 2)") auto
    from ih(2) have u: "n < 2 * 2 ^ bit_length (n div 2)"
      by linarith
    from l u b show ?thesis by simp
  qed
qed

lemma bit_length_one: "bit_length (Suc 0) = Suc 0"
  by (simp add: bit_length_pos bit_length_0)

lemma round_half_even_whole: "round_half_even n (Suc 0) = n"
  by (simp add: round_half_even_def)

text \<open>
  A whole number below \<open>2 ^ 53\<close> is a Number as it is: its significand is the number
  shifted up to 53 bits, and the exponent shifts it back.
\<close>

lemma to_binary64_exact:
  assumes "0 < v" "v < 2 ^ 53"
  shows "to_binary64 neg v 1 =
    Finite neg (v * 2 ^ (53 - bit_length v)) (int (bit_length v) - 53)"
proof -
  define b where "b = bit_length v"
  from bit_length_bounds [OF assms(1)] have lo: "2 ^ (b - 1) \<le> v" and hi: "v < 2 ^ b"
    by (simp_all add: b_def)
  have b1: "1 \<le> b"
    using assms(1) by (simp add: b_def bit_length_pos)
  have b53: "b \<le> 53"
  proof (rule ccontr)
    assume "\<not> b \<le> 53"
    then have "(2::nat) ^ 53 \<le> 2 ^ (b - 1)"
      by (intro power_increasing) auto
    with lo assms(2) show False by linarith
  qed
  have m: "v * 2 ^ (53 - b) < 2 ^ 53"
  proof -
    have "v * 2 ^ (53 - b) < 2 ^ b * 2 ^ (53 - b)"
      using hi by simp
    also have "\<dots> = 2 ^ 53"
      using b53 by (simp flip: power_add)
    finally show ?thesis .
  qed
  have g: "(2::nat) ^ 53 \<le> v * 2 ^ (54 - b)"
  proof -
    have "(2::nat) ^ 53 = 2 ^ (b - 1) * 2 ^ (54 - b)"
      using b1 b53 by (simp flip: power_add)
    also have "\<dots> \<le> v * 2 ^ (54 - b)"
      using lo by simp
    finally show ?thesis .
  qed
  have n54: "nat (54 - int b) = 54 - b" "nat (53 - int b) = 53 - b"
    using b53 by auto
  show ?thesis
  proof (cases "b = 53")
    case True
    with assms g m show ?thesis
      by (simp add: to_binary64_def scaled_def round_half_even_whole bit_length_one Let_def
          flip: b_def)
  next
    case False
    with b53 have "b < 53" by simp
    with assms g m n54 show ?thesis
      by (simp add: to_binary64_def scaled_def round_half_even_whole bit_length_one max_def
          Let_def flip: b_def)
  qed
qed

lemma to_binary64_zero: "to_binary64 neg 0 d = Finite neg 0 (- 1074)"
  by (simp add: to_binary64_def)

lemma digit_facts:
  assumes "is_digit c"
  shows "\<not> is_white_space c" "c \<noteq> 0x2B" "c \<noteq> 0x2D" "c \<noteq> 0x49"
  using assms by (auto simp: is_digit_def is_white_space_def word_le_nat_alt)

text \<open>A text of digits only is read whole, as the whole number the digits write.\<close>

lemma parseFloat_digits:
  assumes "ds \<noteq> []" "list_all is_digit ds"
  shows "parseFloat ds = to_binary64 False (digits_value ds) 1"
proof -
  from assms obtain c cs where ds: "ds = c # cs" and c: "is_digit c"
    by (cases ds) auto
  from assms(2) have tw: "takeWhile is_digit ds = ds" "dropWhile is_digit ds = []"
    by (simp_all add: list_all_iff)
  have ts: "trimStart ds = ds"
    using digit_facts(1) [OF c] by (simp add: trimStart_def ds)
  have rs: "read_sign ds = (False, ds)"
    using digit_facts(2,3) [OF c] by (simp add: read_sign_def ds)
  have inf: "take 8 ds \<noteq> str ''Infinity''"
    using digit_facts(4) [OF c] by (simp add: ds str_def)
  show ?thesis
    using assms(1)
    by (simp add: parseFloat_def ts rs inf tw read_exponent_def decimal_to_number_def)
qed

lemmas parse_defs = parseFloat_def trimStart_def read_sign_def read_exponent_def digits_value_def
  str_def is_digit_def is_white_space_def decimal_to_number_def

lemmas round_defs = to_binary64_def scaled_def round_half_even_def Let_def

lemma parseFloat_empty: "parseFloat [] = NaN"
  by (simp add: parse_defs)

lemma parseFloat_letters: "parseFloat (str ''abc'') = NaN"
  by (simp add: parse_defs)

lemma parseFloat_exponent: "parseFloat (str ''1e3'') = Finite False 8796093022208000 (- 43)"
proof -
  have "parseFloat (str ''1e3'') = to_binary64 False 1000 1"
    by (simp add: parse_defs)
  moreover have "bit_length 1000 = 10"
    using bit_length_eq [of 9 1000] by simp
  moreover have "bit_length 1 = 1"
    using bit_length_one by simp
  ultimately show ?thesis
    by (simp add: round_defs)
qed

lemma parseFloat_thousand: "parseFloat (str ''1000'') = Finite False 8796093022208000 (- 43)"
proof -
  have "parseFloat (str ''1000'') = to_binary64 False 1000 1"
    by (simp add: parse_defs)
  moreover have "bit_length 1000 = 10"
    using bit_length_eq [of 9 1000] by simp
  moreover have "bit_length 1 = 1"
    using bit_length_one by simp
  ultimately show ?thesis
    by (simp add: round_defs)
qed

lemma parseFloat_negative_exponent:
  "parseFloat (str ''1e-2'') = Finite False 5764607523034235 (- 59)"
proof -
  have "parseFloat (str ''1e-2'') = to_binary64 False 1 100"
    by (simp add: parse_defs)
  moreover have "bit_length 100 = 7"
    using bit_length_eq [of 6 100] by simp
  moreover have "bit_length 1 = 1"
    using bit_length_one by simp
  ultimately show ?thesis
    by (simp add: round_defs)
qed

lemma parseFloat_fraction: "parseFloat (str ''-12.5'') = Finite True 7036874417766400 (- 49)"
proof -
  have "parseFloat (str ''-12.5'') = to_binary64 True 125 10"
    by (simp add: parse_defs)
  moreover have "bit_length 125 = 7"
    using bit_length_eq [of 6 125] by simp
  moreover have "bit_length 10 = 4"
    using bit_length_eq [of 3 10] by simp
  ultimately show ?thesis
    by (simp add: round_defs)
qed

lemma parseFloat_five: "parseFloat (str ''5'') = Finite False 5629499534213120 (- 50)"
proof -
  have "parseFloat (str ''5'') = to_binary64 False 5 1"
    by (simp add: parse_defs)
  moreover have "bit_length 5 = 3"
    using bit_length_eq [of 2 5] by simp
  moreover have "bit_length 1 = 1"
    using bit_length_one by simp
  ultimately show ?thesis
    by (simp add: round_defs)
qed

lemma parseFloat_five_point_zero:
  "parseFloat (str ''5.0'') = Finite False 5629499534213120 (- 50)"
proof -
  have "parseFloat (str ''5.0'') = to_binary64 False 50 10"
    by (simp add: parse_defs)
  moreover have "bit_length 50 = 6"
    using bit_length_eq [of 5 50] by simp
  moreover have "bit_length 10 = 4"
    using bit_length_eq [of 3 10] by simp
  ultimately show ?thesis
    by (simp add: round_defs)
qed

lemma parseFloat_prefix: "parseFloat (str '' 42km'') = Finite False 5910974510923776 (- 47)"
proof -
  have "parseFloat (str '' 42km'') = to_binary64 False 42 1"
    by (simp add: parse_defs)
  moreover have "bit_length 42 = 6"
    using bit_length_eq [of 5 42] by simp
  moreover have "bit_length 1 = 1"
    using bit_length_one by simp
  ultimately show ?thesis
    by (simp add: round_defs)
qed

text \<open>
  \<open>2 ^ 53 + 1\<close> is not a Number: it lies half way between \<open>2 ^ 53\<close> and
  \<open>2 ^ 53 + 2\<close>, and the even significand wins.
\<close>

lemma parseFloat_rounds:
  "parseFloat (str ''9007199254740993'') = Finite False 4503599627370496 1"
proof -
  have "parseFloat (str ''9007199254740993'') = to_binary64 False 9007199254740993 1"
    by (simp add: parse_defs)
  moreover have "bit_length 9007199254740993 = 54"
    using bit_length_eq [of 53 9007199254740993] by simp
  moreover have "bit_length 1 = 1"
    using bit_length_one by simp
  ultimately show ?thesis
    by (simp add: round_defs)
qed

text \<open>
  A decimal from \<open>10 ^ 342\<close> on is beyond every finite Number: it is at least
  \<open>2 ^ 1026\<close>, and the largest finite Number is below \<open>2 ^ 1024\<close>.
\<close>

lemma bit_length_greater: "2 ^ k \<le> n \<Longrightarrow> k < bit_length n"
proof -
  assume k: "2 ^ k \<le> n"
  then have "0 < n"
    by (cases n) auto
  from bit_length_bounds [OF this] k have "(2::nat) ^ k < 2 ^ bit_length n"
    by linarith
  then show ?thesis
    by simp
qed

lemma to_binary64_overflow:
  assumes "0 < n" "1025 \<le> int (bit_length n) - int (bit_length d)"
  shows "to_binary64 neg n d = Infinity neg"
  using assms
  by (simp add: to_binary64_def Let_def max_def split: prod.splits if_splits)

lemma power_two_ten: "(2::nat) ^ (3 * j) \<le> 10 ^ j"
proof -
  have "(2::nat) ^ (3 * j) = 8 ^ j"
    by (simp add: power_mult)
  also have "\<dots> \<le> 10 ^ j"
    by (rule power_mono) simp_all
  finally show ?thesis .
qed

lemma decimal_overflow:
  assumes "0 < m" "342 \<le> e"
  shows "decimal_to_number neg m e = Infinity neg"
proof -
  define j where "j = nat e"
  with assms(2) have j: "342 \<le> j" "0 \<le> e"
    by simp_all
  have "(2::nat) ^ (3 * j) \<le> 10 ^ j"
    by (rule power_two_ten)
  also have "\<dots> \<le> m * 10 ^ j"
    using assms(1) by simp
  finally have "3 * j < bit_length (m * 10 ^ j)"
    by (rule bit_length_greater)
  with j(1) have "1025 \<le> int (bit_length (m * 10 ^ j)) - int (bit_length 1)"
    by (simp add: bit_length_one)
  moreover have "0 < m * 10 ^ j"
    using assms(1) by simp
  ultimately have "to_binary64 neg (m * 10 ^ j) 1 = Infinity neg"
    by (rule to_binary64_overflow [rotated])
  with j(2) show ?thesis
    by (simp add: decimal_to_number_def j_def)
qed

lemma parseFloat_overflow: "parseFloat (str ''1e400'') = Infinity False"
proof -
  have "parseFloat (str ''1e400'') = decimal_to_number False 1 400"
    by (simp add: parseFloat_def trimStart_def read_sign_def read_exponent_def digits_value_def
        str_def is_digit_def is_white_space_def)
  then show ?thesis
    by (simp add: decimal_overflow)
qed

lemma parseFloat_zero: "parseFloat (str ''0'') = Finite False 0 (- 1074)"
  by (simp add: parse_defs to_binary64_zero)

text \<open>The significand of a whole number below \<open>2 ^ 53\<close> has exactly 53 bits.\<close>

lemma shifted_significand:
  assumes "0 < v" "v < 2 ^ 53"
  shows "v * 2 ^ (53 - bit_length v) < 2 ^ 53" "2 ^ 52 \<le> v * 2 ^ (53 - bit_length v)"
proof -
  define b where "b = bit_length v"
  from bit_length_bounds [OF assms(1)] have lo: "2 ^ (b - 1) \<le> v" and hi: "v < 2 ^ b"
    by (simp_all add: b_def)
  have b1: "1 \<le> b"
    using assms(1) by (simp add: b_def bit_length_pos)
  have b53: "b \<le> 53"
  proof (rule ccontr)
    assume "\<not> b \<le> 53"
    then have "(2::nat) ^ 53 \<le> 2 ^ (b - 1)"
      by (intro power_increasing) auto
    with lo assms(2) show False by linarith
  qed
  have "v * 2 ^ (53 - b) < 2 ^ b * 2 ^ (53 - b)"
    using hi by simp
  also have "\<dots> = 2 ^ 53"
    using b53 by (simp flip: power_add)
  finally show "v * 2 ^ (53 - bit_length v) < 2 ^ 53"
    by (simp add: b_def)
  have "(2::nat) ^ 52 = 2 ^ (b - 1) * 2 ^ (53 - b)"
    using b1 b53 by (simp flip: power_add)
  also have "\<dots> \<le> v * 2 ^ (53 - b)"
    using lo by simp
  finally show "2 ^ 52 \<le> v * 2 ^ (53 - bit_length v)"
    by (simp add: b_def)
qed

subsection \<open>The rounding of a fraction\<close>

lemma scaled_ratio:
  assumes "0 < d" "scaled n d e = (N, D)"
  shows "0 < D" "real N / real D = real n / real d * 2 powi (- e)"
proof -
  show "0 < D"
    using assms by (auto simp: scaled_def split: if_splits)
  show "real N / real D = real n / real d * 2 powi (- e)"
  proof (cases "0 \<le> e")
    case True
    with assms have "N = n" "D = d * 2 ^ nat e"
      by (simp_all add: scaled_def)
    moreover from True have "(2::real) powi (- e) = inverse (2 ^ nat e)"
      by (simp add: power_int_minus) (simp add: power_int_def)
    ultimately show ?thesis
      by (simp add: divide_inverse ac_simps)
  next
    case False
    with assms have "N = n * 2 ^ nat (- e)" "D = d"
      by (simp_all add: scaled_def)
    moreover from False have "(2::real) powi (- e) = 2 ^ nat (- e)"
      by (simp add: power_int_def)
    ultimately show ?thesis
      by simp
  qed
qed

lemma real_bit_length:
  assumes "0 < n"
  shows "2 powi (int (bit_length n) - 1) \<le> real n" "real n < 2 powi (int (bit_length n))"
proof -
  from bit_length_bounds [OF assms]
  have lo: "2 ^ (bit_length n - 1) \<le> n" and hi: "n < 2 ^ bit_length n"
    by simp_all
  have p: "0 < bit_length n"
    using assms by (simp add: bit_length_pos)
  from lo have "real (2 ^ (bit_length n - 1)) \<le> real n"
    by (rule of_nat_mono)
  moreover have "int (bit_length n) - 1 = int (bit_length n - 1)"
    using p by simp
  ultimately show "2 powi (int (bit_length n) - 1) \<le> real n"
    by (simp add: power_int_of_nat del: of_nat_diff)
  from hi have "real n < real (2 ^ bit_length n)"
    by (simp only: of_nat_less_iff)
  then show "real n < 2 powi (int (bit_length n))"
    by simp
qed

lemma ratio_bounds:
  assumes "0 < n" "0 < d"
  shows "2 powi (int (bit_length n) - int (bit_length d) - 1) < real n / real d"
    and "real n / real d < 2 powi (int (bit_length n) - int (bit_length d) + 1)"
proof -
  define a where "a = int (bit_length n)"
  define b where "b = int (bit_length d)"
  from real_bit_length [OF assms(1)] have n: "2 powi (a - 1) \<le> real n" "real n < 2 powi a"
    by (simp_all add: a_def)
  from real_bit_length [OF assms(2)] have d: "2 powi (b - 1) \<le> real d" "real d < 2 powi b"
    by (simp_all add: b_def)
  have dpos: "0 < real d"
    using assms(2) by simp
  have "2 powi (a - b - 1) * real d < 2 powi (a - b - 1) * 2 powi b"
    using d(2) by simp
  also have "\<dots> = 2 powi (a - 1)"
    by (simp flip: power_int_add)
  also have "\<dots> \<le> real n"
    by (rule n(1))
  finally show "2 powi (int (bit_length n) - int (bit_length d) - 1) < real n / real d"
    using dpos by (simp add: a_def b_def field_simps)
  have "real n < 2 powi a"
    by (rule n(2))
  also have "\<dots> = 2 powi (a - b + 1) * 2 powi (b - 1)"
    by (simp flip: power_int_add)
  also have "\<dots> \<le> 2 powi (a - b + 1) * real d"
    using d(1) by simp
  finally show "real n / real d < 2 powi (int (bit_length n) - int (bit_length d) + 1)"
    using dpos by (simp add: a_def b_def field_simps)
qed

lemma round_half_even_upper:
  assumes "0 < D" "real N / real D < real c"
  shows "round_half_even N D \<le> c"
proof -
  from assms have "N < c * D"
    by (simp add: field_simps flip: of_nat_mult)
  then have "N div D < c"
    using assms(1) by (simp add: div_less_iff_less_mult)
  then show ?thesis
    by (simp add: round_half_even_def Let_def)
qed

lemma round_half_even_lower:
  assumes "0 < D" "real c \<le> real N / real D"
  shows "c \<le> round_half_even N D"
proof -
  from assms have "c * D \<le> N"
    by (simp add: field_simps flip: of_nat_mult)
  then have "c \<le> N div D"
    using assms(1) by (simp add: less_eq_div_iff_mult_less_eq)
  then show ?thesis
    by (simp add: round_half_even_def Let_def)
qed


lemma round_half_even_error:
  assumes "0 < D"
  shows "\<bar>real (round_half_even N D) - real N / real D\<bar> \<le> 1 / 2"
    and "\<bar>real (round_half_even N D) - real N / real D\<bar> = 1 / 2 \<Longrightarrow> even (round_half_even N D)"
proof -
  define q where "q = N div D"
  define t where "t = N mod D"
  have "N = q * D + t"
    by (simp add: q_def t_def)
  then have "real N = real q * real D + real t"
    by (simp flip: of_nat_mult of_nat_add)
  then have x: "real N / real D = real q + real t / real D"
    using assms by (simp add: field_simps)
  have t: "t < D"
    using assms by (simp add: t_def)
  consider "2 * t < D" | "D < 2 * t" | "2 * t = D"
    by linarith
  then have "\<bar>real (round_half_even N D) - real N / real D\<bar> \<le> 1 / 2
      \<and> (\<bar>real (round_half_even N D) - real N / real D\<bar> = 1 / 2 \<longrightarrow> even (round_half_even N D))"
  proof cases
    case 1
    then have r: "round_half_even N D = q"
      by (simp add: round_half_even_def Let_def flip: q_def t_def)
    define y where "y = real t / real D"
    from 1 have "real (2 * t) < real D"
      by (simp only: of_nat_less_iff)
    then have "y < 1 / 2"
      using assms by (simp add: y_def field_simps)
    moreover have "0 \<le> y"
      by (simp add: y_def)
    moreover have "real (round_half_even N D) - real N / real D = - y"
      by (simp add: r x y_def)
    ultimately show ?thesis
      by simp
  next
    case 2
    then have r: "round_half_even N D = q + 1"
      by (simp add: round_half_even_def Let_def flip: q_def t_def)
    define y where "y = real t / real D"
    from 2 have "real D < real (2 * t)"
      by (simp only: of_nat_less_iff)
    then have "1 / 2 < y"
      using assms by (simp add: y_def field_simps)
    moreover from t have "y < 1"
      using assms by (simp add: y_def)
    moreover have "real (round_half_even N D) - real N / real D = 1 - y"
      by (simp add: r x y_def)
    ultimately show ?thesis
      by simp
  next
    case 3
    then have r: "round_half_even N D = (if even q then q else q + 1)"
      by (simp add: round_half_even_def Let_def flip: q_def t_def)
    define y where "y = real t / real D"
    from 3 have "real (2 * t) = real D"
      by (simp only:)
    then have y: "y = 1 / 2"
      using assms by (simp add: y_def field_simps)
    define z where "z = real (round_half_even N D) - real N / real D"
    have "z = (if even q then - y else 1 - y)"
      by (simp add: z_def r x y_def)
    with y have a: "\<bar>z\<bar> = 1 / 2"
      by simp
    have b: "even (round_half_even N D)"
      by (simp add: r)
    from a b show ?thesis
      unfolding z_def by simp
  qed
  then show "\<bar>real (round_half_even N D) - real N / real D\<bar> \<le> 1 / 2"
    and "\<bar>real (round_half_even N D) - real N / real D\<bar> = 1 / 2 \<Longrightarrow> even (round_half_even N D)"
    by simp_all
qed

text \<open>
  The steps of \<open>to_binary64\<close> on a positive fraction: an exponent \<open>e\<close> not below
  \<open>- 1074\<close> at which the fraction, divided by \<open>2 ^ e\<close>, is below \<open>2 ^ 53\<close>, and
  not below \<open>2 ^ 52\<close> unless \<open>e = - 1074\<close>; then the rounding of that quotient.
\<close>

lemma to_binary64_shape:
  assumes n: "0 < n" and dpos: "0 < d"
  obtains e1 n1 d1 where
    "0 < d1"
    "real n1 / real d1 = real n / real d * 2 powi (- e1)"
    "- 1074 \<le> e1"
    "real n1 / real d1 < 2 ^ 53"
    "- 1074 < e1 \<Longrightarrow> 2 ^ 52 \<le> real n1 / real d1"
    "to_binary64 neg n d =
      (if round_half_even n1 d1 = 2 ^ 53
       then (if 971 < e1 + 1 then Infinity neg else Finite neg (2 ^ 52) (e1 + 1))
       else (if 971 < e1 then Infinity neg else Finite neg (round_half_even n1 d1) e1))"
proof -
  from n have False: "n \<noteq> 0" by simp
  define k where "k = int (bit_length n) - int (bit_length d)"
  define e0 where "e0 = max (- 1074) (k - 53)"
  obtain n0 d0 where s0: "scaled n d e0 = (n0, d0)"
    by (cases "scaled n d e0")
  define e1 where "e1 = (if 2 ^ 53 * d0 \<le> n0 then e0 + 1 else e0)"
  obtain n1 d1 where s1: "scaled n d e1 = (n1, d1)"
    by (cases "scaled n d e1")
  define m where "m = round_half_even n1 d1"
  define r where "r = real n / real d"
  have rpos: "0 < r"
    using n dpos by (simp add: r_def)
  from ratio_bounds [OF n dpos] have r: "2 powi (k - 1) < r" "r < 2 powi (k + 1)"
    by (simp_all add: r_def k_def)
  from scaled_ratio [OF dpos s0] have d0: "0 < d0" and r0: "real n0 / real d0 = r * 2 powi (- e0)"
    by (simp_all add: r_def)
  from scaled_ratio [OF dpos s1] have d1: "0 < d1" and r1: "real n1 / real d1 = r * 2 powi (- e1)"
    by (simp_all add: r_def)
  have e0: "- 1074 \<le> e0" "k - 53 \<le> e0"
    by (simp_all add: e0_def)
  define x0 where "x0 = r * 2 powi (- e0)"
  define x1 where "x1 = r * 2 powi (- e1)"
  have c: "2 ^ 53 * d0 \<le> n0 \<longleftrightarrow> 2 ^ 53 \<le> x0"
  proof -
    have "2 ^ 53 * d0 \<le> n0 \<longleftrightarrow> real (2 ^ 53 * d0) \<le> real n0"
      by (simp only: of_nat_le_iff)
    also have "\<dots> \<longleftrightarrow> 2 ^ 53 \<le> real n0 / real d0"
      using d0 by (simp add: field_simps)
    finally show ?thesis
      by (simp only: r0 x0_def)
  qed
  have f1: "x0 < 2 ^ 54"
  proof -
    have "r * 2 powi (- e0) < 2 powi (k + 1) * 2 powi (- e0)"
      using r(2) by simp
    also have "\<dots> = 2 powi (k + 1 - e0)"
      by (simp flip: power_int_add)
    also have "\<dots> \<le> 2 powi 54"
      using e0(2) by (intro power_int_increasing) simp_all
    finally show ?thesis
      by (simp add: x0_def)
  qed
  have f2: "2 ^ 52 < x0" if "e0 = k - 53"
  proof -
    have "(2::real) powi 52 = 2 powi (k - 1) * 2 powi (- e0)"
      using that by (simp flip: power_int_add)
    also have "\<dots> < r * 2 powi (- e0)"
      using r(1) by simp
    finally show ?thesis
      by (simp add: x0_def)
  qed
  have half: "x1 = x0 / 2" if "e1 = e0 + 1"
  proof -
    have "(2::real) powi (- e0) = 2 powi (- (e0 + 1) + 1)"
      by simp
    also have "\<dots> = 2 powi (- (e0 + 1)) * 2 powi 1"
      by (rule power_int_add) simp
    finally have "(2::real) powi (- e0) = 2 powi (- (e0 + 1)) * 2"
      by simp
    then have "x0 = r * 2 powi (- (e0 + 1)) * 2"
      by (simp only: x0_def mult.assoc)
    then show ?thesis
      by (simp only: x1_def that)
  qed
  have same: "x1 = x0" if "e1 = e0"
    by (simp only: x1_def x0_def that)
  have a: "x1 < 2 ^ 53"
  proof (cases "2 ^ 53 * d0 \<le> n0")
    case True
    then have "e1 = e0 + 1" by (simp add: e1_def)
    from half [OF this] f1 show ?thesis by simp
  next
    case False
    then have "e1 = e0" by (simp add: e1_def)
    from same [OF this] False c show ?thesis by simp
  qed
  have b: "2 ^ 52 \<le> x1" if "- 1074 < e1"
  proof (cases "2 ^ 53 * d0 \<le> n0")
    case True
    then have "e1 = e0 + 1" by (simp add: e1_def)
    from half [OF this] True c show ?thesis by simp
  next
    case False
    then have e: "e1 = e0" by (simp add: e1_def)
    with that have "e0 = k - 53" by (simp add: e0_def max_def split: if_splits)
    from f2 [OF this] same [OF e] show ?thesis by simp
  qed
  have e1: "- 1074 \<le> e1"
    using e0(1) by (simp add: e1_def)
  have res: "to_binary64 neg n d =
      (if m = 2 ^ 53
       then (if 971 < e1 + 1 then Infinity neg else Finite neg (2 ^ 52) (e1 + 1))
       else (if 971 < e1 then Infinity neg else Finite neg m e1))"
  proof -
    have "to_binary64 neg n d =
        (case (if m = 2 ^ 53 then (2 ^ 52, e1 + 1) else (m, e1)) of
           (m2, e2) \<Rightarrow> if 971 < e2 then Infinity neg else Finite neg m2 e2)"
      by (simp only: to_binary64_def Let_def False if_False k_def [symmetric]
          e0_def [symmetric] s0 prod.case e1_def [symmetric] s1 m_def [symmetric])
    then show ?thesis
      by (cases "m = 2 ^ 53") simp_all
  qed
  show ?thesis
  proof (rule that)
    show "0 < d1"
      by (rule d1)
    show "real n1 / real d1 = real n / real d * 2 powi (- e1)"
      using r1 by (simp only: r_def)
    show "- 1074 \<le> e1"
      by (rule e1)
    show "real n1 / real d1 < 2 ^ 53"
      using a by (simp only: r1 x1_def)
    show "2 ^ 52 \<le> real n1 / real d1" if "- 1074 < e1"
      using b [OF that] by (simp only: r1 x1_def)
    show "to_binary64 neg n d =
      (if round_half_even n1 d1 = 2 ^ 53
       then (if 971 < e1 + 1 then Infinity neg else Finite neg (2 ^ 52) (e1 + 1))
       else (if 971 < e1 then Infinity neg else Finite neg (round_half_even n1 d1) e1))"
      using res by (simp only: m_def)
  qed
qed

lemma to_binary64_range:
  assumes "0 < d"
  shows "is_binary64 (to_binary64 neg n d)"
proof (cases "n = 0")
  case True
  then show ?thesis
    by (simp add: to_binary64_def)
next
  case False
  then have "0 < n" by simp
  from this assms show ?thesis
  proof (rule to_binary64_shape [where neg = neg])
    fix e1 :: int and n1 d1 :: nat
    assume s: "0 < d1" "- 1074 \<le> e1" "real n1 / real d1 < 2 ^ 53"
      "- 1074 < e1 \<Longrightarrow> 2 ^ 52 \<le> real n1 / real d1"
      "to_binary64 neg n d =
        (if round_half_even n1 d1 = 2 ^ 53
         then (if 971 < e1 + 1 then Infinity neg else Finite neg (2 ^ 52) (e1 + 1))
         else (if 971 < e1 then Infinity neg else Finite neg (round_half_even n1 d1) e1))"
    define m where "m = round_half_even n1 d1"
    have mu: "m \<le> 2 ^ 53"
      unfolding m_def
    proof (rule round_half_even_upper [OF s(1)])
      show "real n1 / real d1 < real (2 ^ 53)"
        using s(3) by simp
    qed
    have ml: "2 ^ 52 \<le> m" if "- 1074 < e1"
      unfolding m_def
    proof (rule round_half_even_lower [OF s(1)])
      show "real (2 ^ 52) \<le> real n1 / real d1"
        using s(4) [OF that] by simp
    qed
    show ?thesis
    proof (cases "m = 2 ^ 53")
      case True
      with s(2) show ?thesis
        by (simp add: s(5) flip: m_def)
    next
      case False
      with mu have "m < 2 ^ 53" by simp
      with s(2) ml False show ?thesis
        by (auto simp: s(5) simp flip: m_def)
    qed
  qed
qed

text \<open>
  A finite result is within half a unit of its last place of the fraction, and where
  the fraction lies half way between two values the significand is even; an infinity
  stands for a fraction of at least \<open>(2 ^ 53 - 1 / 2) * 2 ^ 971\<close>, half a unit beyond the
  largest finite value.
\<close>

lemma to_binary64_nearest:
  assumes "0 < d" "to_binary64 neg n d = Finite s m e"
  shows "\<bar>real m - real n / real d * 2 powi (- e)\<bar> \<le> 1 / 2"
    and "\<bar>real m - real n / real d * 2 powi (- e)\<bar> = 1 / 2 \<Longrightarrow> even m"
    and "- 1074 < e \<Longrightarrow> 2 ^ 52 - 1 / 4 \<le> real n / real d * 2 powi (- e)"
proof -
  have "\<bar>real m - real n / real d * 2 powi (- e)\<bar> \<le> 1 / 2
      \<and> (\<bar>real m - real n / real d * 2 powi (- e)\<bar> = 1 / 2 \<longrightarrow> even m)
      \<and> (- 1074 < e \<longrightarrow> 2 ^ 52 - 1 / 4 \<le> real n / real d * 2 powi (- e))"
  proof (cases "n = 0")
    case True
    with assms(2) show ?thesis
      by (simp add: to_binary64_def)
  next
    case False
    then have "0 < n" by simp
    from this assms(1) show ?thesis
    proof (rule to_binary64_shape [where neg = neg])
      fix e1 :: int and n1 d1 :: nat
      assume t: "0 < d1" "real n1 / real d1 = real n / real d * 2 powi (- e1)"
        "to_binary64 neg n d =
          (if round_half_even n1 d1 = 2 ^ 53
           then (if 971 < e1 + 1 then Infinity neg else Finite neg (2 ^ 52) (e1 + 1))
           else (if 971 < e1 then Infinity neg else Finite neg (round_half_even n1 d1) e1))"
        and low: "- 1074 < e1 \<Longrightarrow> 2 ^ 52 \<le> real n1 / real d1"
      define x where "x = real n1 / real d1"
      from round_half_even_error [OF t(1), of n1]
      have err: "\<bar>real (round_half_even n1 d1) - x\<bar> \<le> 1 / 2"
        "\<bar>real (round_half_even n1 d1) - x\<bar> = 1 / 2 \<Longrightarrow> even (round_half_even n1 d1)"
        by (simp_all add: x_def)
      show ?thesis
      proof (cases "round_half_even n1 d1 = 2 ^ 53")
        case True
        with assms(2) t(3) have me: "m = 2 ^ 52" "e = e1 + 1"
          by (simp_all split: if_splits)
        have "(2::real) powi (- e1) = 2 powi (- (e1 + 1) + 1)"
          by simp
        also have "\<dots> = 2 powi (- (e1 + 1)) * 2 powi 1"
          by (rule power_int_add) simp
        finally have "x = real n / real d * 2 powi (- e) * 2"
          by (simp add: x_def t(2) me(2))
        then have y: "real n / real d * 2 powi (- e) = x / 2"
          by simp
        define a :: real where "a = 2 ^ 53"
        from err(1) True have "\<bar>a - x\<bar> \<le> 1 / 2"
          by (simp add: a_def)
        then have "\<bar>a / 2 - x / 2\<bar> \<le> 1 / 4"
          by linarith
        moreover have "real m = a / 2"
          by (simp add: me(1) a_def)
        ultimately have q: "\<bar>real m - x / 2\<bar> \<le> 1 / 4"
          by (simp only:)
        have "real m = 2 ^ 52"
          by (simp add: me(1))
        with q have "2 ^ 52 - 1 / 4 \<le> x / 2"
          by linarith
        with q show ?thesis
          by (simp only: y) simp
      next
        case False
        with assms(2) t(3) have me: "m = round_half_even n1 d1" "e = e1"
          by (simp_all split: if_splits)
        have "2 ^ 52 - 1 / 4 \<le> x" if "- 1074 < e"
        proof -
          from that low have "2 ^ 52 \<le> x"
            by (simp add: me(2) x_def)
          then show ?thesis
            by linarith
        qed
        with err show ?thesis
          by (simp add: me x_def t(2))
      qed
    qed
  qed
  then show "\<bar>real m - real n / real d * 2 powi (- e)\<bar> \<le> 1 / 2"
    and "\<bar>real m - real n / real d * 2 powi (- e)\<bar> = 1 / 2 \<Longrightarrow> even m"
    and "- 1074 < e \<Longrightarrow> 2 ^ 52 - 1 / 4 \<le> real n / real d * 2 powi (- e)"
    by simp_all
qed

lemma to_binary64_infinite:
  assumes "0 < d" "to_binary64 neg n d = Infinity s"
  shows "2 ^ 53 - 1 / 2 \<le> real n / real d * 2 powi (- 971)"
proof -
  from assms(2) have "0 < n"
    by (cases "n = 0") (simp_all add: to_binary64_def)
  from this assms(1) show ?thesis
  proof (rule to_binary64_shape [where neg = neg])
    fix e1 :: int and n1 d1 :: nat
    assume t: "0 < d1" "real n1 / real d1 = real n / real d * 2 powi (- e1)"
      "- 1074 < e1 \<Longrightarrow> 2 ^ 52 \<le> real n1 / real d1"
      "to_binary64 neg n d =
        (if round_half_even n1 d1 = 2 ^ 53
         then (if 971 < e1 + 1 then Infinity neg else Finite neg (2 ^ 52) (e1 + 1))
         else (if 971 < e1 then Infinity neg else Finite neg (round_half_even n1 d1) e1))"
    define x where "x = real n1 / real d1"
    define y where "y = real n / real d * 2 powi (- 971)"
    have xy: "y = x * 2 powi (e1 - 971)"
    proof -
      have "- e1 + (e1 - 971) = - 971"
        by simp
      then have "(2::real) powi (- 971) = 2 powi (- e1 + (e1 - 971))"
        by (simp only:)
      also have "\<dots> = 2 powi (- e1) * 2 powi (e1 - 971)"
        by (rule power_int_add) simp
      finally have p: "(2::real) powi (- 971) = 2 powi (- e1) * 2 powi (e1 - 971)" .
      show ?thesis
        unfolding y_def x_def t(2) p by (simp only: mult.assoc)
    qed
    have xpos: "0 \<le> x"
      by (simp add: x_def)
    show ?thesis
    proof (cases "round_half_even n1 d1 = 2 ^ 53")
      case True
      with assms(2) t(4) have e: "971 \<le> e1"
        by (simp split: if_splits)
      define a :: real where "a = 2 ^ 53 - 1 / 2"
      from round_half_even_error(1) [OF t(1), of n1] True have "\<bar>2 ^ 53 - x\<bar> \<le> 1 / 2"
        by (simp add: x_def)
      then have ax: "a \<le> x"
        unfolding a_def by linarith
      have "(1::real) \<le> 2 powi (e1 - 971)"
        using e by (intro one_le_power_int) simp_all
      then have "x * 1 \<le> x * 2 powi (e1 - 971)"
        using xpos by (rule mult_left_mono)
      then have "x \<le> x * 2 powi (e1 - 971)"
        by (simp only: mult_1_right)
      with ax have "a \<le> x * 2 powi (e1 - 971)"
        by (rule order_trans)
      then have "2 ^ 53 - 1 / 2 \<le> x * 2 powi (e1 - 971)"
        by (simp only: a_def)
      then show ?thesis
        by (simp only: xy [symmetric] y_def)
    next
      case False
      with assms(2) t(4) have e: "972 \<le> e1"
        by (simp split: if_splits)
      then have "2 ^ 52 \<le> x"
        using t(3) by (simp add: x_def)
      moreover have "(2::real) powi 1 \<le> 2 powi (e1 - 971)"
        using e by (intro power_int_increasing) simp_all
      ultimately have "2 ^ 52 * 2 \<le> x * 2 powi (e1 - 971)"
        by (intro mult_mono) simp_all
      then have "2 ^ 53 - 1 / 2 \<le> x * 2 powi (e1 - 971)"
        by simp
      then show ?thesis
        by (simp only: xy [symmetric] y_def)
    qed
  qed
qed


text \<open>
  So the Number of a decimal \<open>m * 10 ^ e\<close> is the nearest one: a finite result is within
  half a unit of its last place of the decimal, with an even significand at a tie.
\<close>

lemma decimal_fraction:
  "decimal_to_number neg m e = to_binary64 neg n d \<and> 0 < d
     \<and> real n / real d = real m * 10 powi e"
  if "n = (if 0 \<le> e then m * 10 ^ nat e else m)" "d = (if 0 \<le> e then 1 else 10 ^ nat (- e))"
proof (cases "0 \<le> e")
  case True
  with that show ?thesis
    by (simp add: decimal_to_number_def power_int_def)
next
  case False
  then have "(10::real) powi e = inverse (10 ^ nat (- e))"
    by (simp add: power_int_def power_one_over inverse_eq_divide)
  with False that show ?thesis
    by (simp add: decimal_to_number_def divide_inverse)
qed

lemma decimal_to_number_nearest:
  assumes "decimal_to_number neg m e = Finite s M E"
  shows "\<bar>real M - real m * 10 powi e * 2 powi (- E)\<bar> \<le> 1 / 2"
    and "\<bar>real M - real m * 10 powi e * 2 powi (- E)\<bar> = 1 / 2 \<Longrightarrow> even M"
proof -
  define n where "n = (if 0 \<le> e then m * 10 ^ nat e else m)"
  define d :: nat where "d = (if 0 \<le> e then 1 else 10 ^ nat (- e))"
  from decimal_fraction [OF n_def d_def, of neg]
  have f: "decimal_to_number neg m e = to_binary64 neg n d" "0 < d"
    "real n / real d = real m * 10 powi e"
    by simp_all
  from assms f(1) have t: "to_binary64 neg n d = Finite s M E"
    by simp
  from to_binary64_nearest(1) [OF f(2) t]
  show "\<bar>real M - real m * 10 powi e * 2 powi (- E)\<bar> \<le> 1 / 2"
    by (simp only: f(3))
  assume "\<bar>real M - real m * 10 powi e * 2 powi (- E)\<bar> = 1 / 2"
  then have "\<bar>real M - real n / real d * 2 powi (- E)\<bar> = 1 / 2"
    by (simp only: f(3))
  then show "even M"
    by (rule to_binary64_nearest(2) [OF f(2) t])
qed

text \<open>Whatever the text, \<^verbatim>\<open>parseFloat\<close> gives a Number in its one written form.\<close>

lemma decimal_to_number_range: "is_binary64 (decimal_to_number neg m e)"
  by (simp add: decimal_to_number_def to_binary64_range)

lemma parseFloat_range: "is_binary64 (parseFloat s)"
  by (simp add: parseFloat_def Let_def decimal_to_number_range split: prod.splits list.splits)

lemma str_nonempty: "cs \<noteq> [] \<Longrightarrow> str cs \<noteq> []"
  by (simp add: str_def)

subsection \<open>The request payload\<close>

text \<open>
  Claim C5. The payload has a note exactly when the note text, with the white space at
  both ends removed, is not empty, and the note is then that stripped text: the text is
  a run of white space, the stripped text, and a run of white space, and the stripped
  text neither starts nor ends with white space. A blank text gives no note at all. So
  the text of three spaces is left out, and the text \<^verbatim>\<open>"  hi  "\<close> is sent as \<^verbatim>\<open>"hi"\<close>. This
  payload is the one the request carries.
\<close>

theorem note_trimming:
  "payload_note (check_payload s) = (if trim (note s) = [] then None else Some (trim (note s)))
   \<and> (\<exists>p q. note s = p @ trim (note s) @ q
          \<and> list_all is_white_space p \<and> list_all is_white_space q)
   \<and> (trim (note s) \<noteq> [] \<longrightarrow>
        \<not> is_white_space (hd (trim (note s))) \<and> \<not> is_white_space (last (trim (note s))))
   \<and> payload_note (check_payload (s\<lparr>note := str ''   ''\<rparr>)) = None
   \<and> payload_note (check_payload (s\<lparr>note := str ''  hi  ''\<rparr>)) = Some (str ''hi'')
   \<and> snd (handleSubmit r s) ! 1 = CreateCheck (check_payload s)"
proof -
  have 1: "payload_note (check_payload s) =
      (if trim (note s) = [] then None else Some (trim (note s)))"
    by (simp add: check_payload_def)
  have 2: "payload_note (check_payload (s\<lparr>note := str ''   ''\<rparr>)) = None"
    by (simp add: check_payload_def trim_blank)
  have 3: "payload_note (check_payload (s\<lparr>note := str ''  hi  ''\<rparr>)) = Some (str ''hi'')"
    by (simp add: check_payload_def trim_hi str_nonempty)
  have 4: "snd (handleSubmit r s) ! 1 = CreateCheck (check_payload s)"
    by (simp add: handleSubmit_def submission_effects submit_start_effects)
  from 1 2 3 4 trim_decomposition [of "note s"] trim_ends [of "note s"] show ?thesis
    by blast
qed

theorem note_trimming_witness:
  "trim (note (initial_form\<lparr>note := str '' ok ''\<rparr>)) \<noteq> []
   \<and> payload_note (check_payload (initial_form\<lparr>note := str '' ok ''\<rparr>)) = Some (str ''ok'')
   \<and> \<not> is_white_space (hd (str ''ok'')) \<and> \<not> is_white_space (last (str ''ok''))"
proof -
  have t: "trim (note (initial_form\<lparr>note := str '' ok ''\<rparr>)) = str ''ok''"
    by (simp add: trim_def trimStart_def str_def is_white_space_def)
  have n: "str ''ok'' \<noteq> []"
    by (simp add: str_nonempty)
  from note_trimming [of "initial_form\<lparr>note := str '' ok ''\<rparr>" Resolved] show ?thesis
    unfolding t using n by simp
qed

text \<open>
  Claim C9. Whatever the form holds when it is submitted, the request is sent, and its
  payload is taken from the form as it is at that moment, whatever is edited afterwards:
  \<^verbatim>\<open>vehicleId\<close> is the selected value as the select control stored it, \<^verbatim>\<open>odometerKm\<close> is
  the Number that \<^verbatim>\<open>parseFloat\<close> gives for the odometer text, with no check of range or
  of \<^verbatim>\<open>NaN\<close> in between, and \<^verbatim>\<open>items\<close> is the checklist as it is. What is sent is
  always a Number in its one written form. The empty odometer text, which is also the
  initial one, is sent as \<^verbatim>\<open>NaN\<close>, and so is a text with no number at its start. A text
  of digits that writes a whole number from 1 to below
  \<open>2 ^ 53\<close> is sent as exactly that number, and zero as zero. An exponent and a
  fraction count (\<^verbatim>\<open>1e3\<close> is 1000, \<^verbatim>\<open>5.0\<close> is 5, \<^verbatim>\<open>1e-2\<close> and \<^verbatim>\<open>-12.5\<close> are the nearest
  Numbers, the sign kept), leading white space and what follows the number are skipped,
  \<open>2 ^ 53 + 1\<close> is rounded to \<open>2 ^ 53\<close>, and \<^verbatim>\<open>1e400\<close> is sent as \<^verbatim>\<open>Infinity\<close>.
\<close>

theorem payload_construction:
  "snd (handleSubmit r s) ! 1 = CreateCheck (check_payload s)
   \<and> snd (submission es r s) ! 1 = CreateCheck (check_payload s)
   \<and> payload_vehicleId (check_payload s) = selectedVehicle s
   \<and> selectedVehicle (apply_edit s (SetSelectedVehicle v)) = v
   \<and> payload_odometerKm (check_payload s) = parseFloat (odometerKm s)
   \<and> payload_items (check_payload s) = items s
   \<and> is_binary64 (payload_odometerKm (check_payload s))
   \<and> odometerKm initial_form = str ''''
   \<and> payload_odometerKm (check_payload (s\<lparr>odometerKm := str ''''\<rparr>)) = NaN
   \<and> payload_odometerKm (check_payload (s\<lparr>odometerKm := str ''abc''\<rparr>)) = NaN
   \<and> (ds \<noteq> [] \<and> list_all is_digit ds \<and> 0 < digits_value ds \<and> digits_value ds < 2 ^ 53 \<longrightarrow>
        payload_odometerKm (check_payload (s\<lparr>odometerKm := ds\<rparr>)) =
          Finite False (digits_value ds * 2 ^ (53 - bit_length (digits_value ds)))
            (int (bit_length (digits_value ds)) - 53)
        \<and> digits_value ds * 2 ^ (53 - bit_length (digits_value ds)) < 2 ^ 53
        \<and> 2 ^ 52 \<le> digits_value ds * 2 ^ (53 - bit_length (digits_value ds)))
   \<and> payload_odometerKm (check_payload (s\<lparr>odometerKm := str ''0''\<rparr>)) = Finite False 0 (- 1074)
   \<and> payload_odometerKm (check_payload (s\<lparr>odometerKm := str ''1000''\<rparr>))
       = Finite False 8796093022208000 (- 43)
   \<and> payload_odometerKm (check_payload (s\<lparr>odometerKm := str ''1e3''\<rparr>))
       = Finite False 8796093022208000 (- 43)
   \<and> payload_odometerKm (check_payload (s\<lparr>odometerKm := str ''1e-2''\<rparr>))
       = Finite False 5764607523034235 (- 59)
   \<and> payload_odometerKm (check_payload (s\<lparr>odometerKm := str ''-12.5''\<rparr>))
       = Finite True 7036874417766400 (- 49)
   \<and> payload_odometerKm (check_payload (s\<lparr>odometerKm := str ''5''\<rparr>))
       = Finite False 5629499534213120 (- 50)
   \<and> payload_odometerKm (check_payload (s\<lparr>odometerKm := str ''5.0''\<rparr>))
       = Finite False 5629499534213120 (- 50)
   \<and> payload_odometerKm (check_payload (s\<lparr>odometerKm := str '' 42km''\<rparr>))
       = Finite False 5910974510923776 (- 47)
   \<and> payload_odometerKm (check_payload (s\<lparr>odometerKm := str ''9007199254740993''\<rparr>))
       = Finite False 4503599627370496 1
   \<and> payload_odometerKm (check_payload (s\<lparr>odometerKm := str ''1e400''\<rparr>)) = Infinity False"
proof -
  have fx: "snd (handleSubmit r s) ! 1 = CreateCheck (check_payload s)"
    "snd (submission es r s) ! 1 = CreateCheck (check_payload s)"
    by (simp_all add: handleSubmit_def submission_effects submit_start_effects)
  have fields: "payload_vehicleId (check_payload s) = selectedVehicle s"
    "selectedVehicle (apply_edit s (SetSelectedVehicle v)) = v"
    "payload_items (check_payload s) = items s"
    "odometerKm initial_form = str ''''"
    by (simp_all add: check_payload_def initial_form_def str_def)
  have p: "payload_odometerKm (check_payload (s\<lparr>odometerKm := t\<rparr>)) = parseFloat t" for t
    by (simp add: check_payload_def)
  have p0: "payload_odometerKm (check_payload s) = parseFloat (odometerKm s)"
    "is_binary64 (payload_odometerKm (check_payload s))"
    by (simp_all add: check_payload_def parseFloat_range)
  have e: "parseFloat (str '''') = NaN"
    using parseFloat_empty by (simp add: str_def)
  have whole: "parseFloat ds =
          Finite False (digits_value ds * 2 ^ (53 - bit_length (digits_value ds)))
            (int (bit_length (digits_value ds)) - 53)
        \<and> digits_value ds * 2 ^ (53 - bit_length (digits_value ds)) < 2 ^ 53
        \<and> 2 ^ 52 \<le> digits_value ds * 2 ^ (53 - bit_length (digits_value ds))"
    if "ds \<noteq> []" "list_all is_digit ds" "0 < digits_value ds" "digits_value ds < 2 ^ 53"
  proof -
    from that(1,2) have "parseFloat ds = to_binary64 False (digits_value ds) 1"
      by (rule parseFloat_digits)
    also from that(3,4) have "\<dots> =
        Finite False (digits_value ds * 2 ^ (53 - bit_length (digits_value ds)))
          (int (bit_length (digits_value ds)) - 53)"
      by (rule to_binary64_exact)
    finally have 1: "parseFloat ds =
        Finite False (digits_value ds * 2 ^ (53 - bit_length (digits_value ds)))
          (int (bit_length (digits_value ds)) - 53)" .
    from that(3,4) have 2: "digits_value ds * 2 ^ (53 - bit_length (digits_value ds)) < 2 ^ 53"
      by (rule shifted_significand(1))
    from that(3,4) have 3: "2 ^ 52 \<le> digits_value ds * 2 ^ (53 - bit_length (digits_value ds))"
      by (rule shifted_significand(2))
    from 1 2 3 show ?thesis
      by (intro conjI)
  qed
  from fx fields p0 e whole show ?thesis
    unfolding p
    by (simp add: parseFloat_letters parseFloat_zero parseFloat_thousand parseFloat_exponent
        parseFloat_negative_exponent parseFloat_fraction parseFloat_five
        parseFloat_five_point_zero parseFloat_prefix parseFloat_rounds parseFloat_overflow)
qed

theorem payload_construction_witness:
  "str ''120450'' \<noteq> []
   \<and> list_all is_digit (str ''120450'')
   \<and> digits_value (str ''120450'') = 120450
   \<and> payload_odometerKm (check_payload (initial_form\<lparr>odometerKm := str ''120450''\<rparr>))
       = Finite False 8277260972851200 (- 36)
   \<and> snd (handleSubmit Resolved
        (initial_form\<lparr>selectedVehicle := str ''v7'', odometerKm := str ''-12.5''\<rparr>)) ! 1
     = CreateCheck
         \<lparr>payload_vehicleId = str ''v7'',
          payload_odometerKm = Finite True 7036874417766400 (- 49),
          payload_items = initial_items, payload_note = None\<rparr>
   \<and> snd (handleSubmit Resolved initial_form) ! 1
     = CreateCheck
         \<lparr>payload_vehicleId = [], payload_odometerKm = NaN,
          payload_items = initial_items, payload_note = None\<rparr>"
proof -
  define s where "s = initial_form\<lparr>selectedVehicle := str ''v7'', odometerKm := str ''-12.5''\<rparr>"
  have n: "str ''120450'' \<noteq> []"
    by (simp add: str_def)
  have d: "list_all is_digit (str ''120450'')"
    by (simp add: str_def is_digit_def)
  have v: "digits_value (str ''120450'') = 120450"
    by (simp add: str_def digits_value_def)
  have b: "bit_length 120450 = 17"
    using bit_length_eq [of 16 120450] by simp
  from payload_construction [where s = initial_form and ds = "str ''120450''"] n d
  have w: "payload_odometerKm (check_payload (initial_form\<lparr>odometerKm := str ''120450''\<rparr>))
       = Finite False 8277260972851200 (- 36)"
    by (simp add: v b)
  from payload_construction [where s = s and r = Resolved]
  have o: "payload_odometerKm (check_payload (s\<lparr>odometerKm := str ''-12.5''\<rparr>))
       = Finite True 7036874417766400 (- 49)"
    by blast
  have ss: "s\<lparr>odometerKm := str ''-12.5''\<rparr> = s"
    by (simp add: s_def)
  have a: "check_payload s
      = \<lparr>payload_vehicleId = str ''v7'',
         payload_odometerKm = Finite True 7036874417766400 (- 49),
         payload_items = initial_items, payload_note = None\<rparr>"
  proof -
    have "payload_vehicleId (check_payload s) = str ''v7''"
      "payload_items (check_payload s) = initial_items"
      "payload_note (check_payload s) = None"
      by (simp_all add: check_payload_def s_def initial_form_def trim_def trimStart_def)
    moreover from o have "payload_odometerKm (check_payload s) = Finite True 7036874417766400 (- 49)"
      by (simp only: ss)
    ultimately show ?thesis
      by (cases "check_payload s") simp
  qed
  have c: "check_payload initial_form
      = \<lparr>payload_vehicleId = [], payload_odometerKm = NaN,
         payload_items = initial_items, payload_note = None\<rparr>"
    by (simp add: check_payload_def initial_form_def parseFloat_empty trim_def trimStart_def)
  from payload_construction [where s = s and r = Resolved]
  have "snd (handleSubmit Resolved s) ! 1 = CreateCheck (check_payload s)"
    by blast
  moreover from payload_construction [where s = initial_form and r = Resolved]
  have "snd (handleSubmit Resolved initial_form) ! 1 = CreateCheck (check_payload initial_form)"
    by blast
  ultimately show ?thesis
    using n d v w a c unfolding s_def by simp
qed

subsection \<open>The course of a submission\<close>

text \<open>
  Claim C4. The loading flag is set when the request starts and stays set while it is in
  flight, whatever is edited meanwhile, so the submit button is disabled; once the
  submission has resolved the flag is clear and the button enabled again, whether the
  request succeeded, failed with details or failed without.
\<close>

theorem loading_flag:
  "loading (fst (submit_start s))
   \<and> loading (foldl apply_edit (fst (submit_start s)) es)
   \<and> submit_disabled (foldl apply_edit (fst (submit_start s)) es)
   \<and> \<not> loading (fst (submission es r s))
   \<and> \<not> loading (fst (handleSubmit r s))
   \<and> \<not> submit_disabled (fst (handleSubmit r s))"
  by (simp add: submit_disabled_def handleSubmit_def submission_state settle_loading
      edits_loading submit_start_state)

theorem loading_flag_witness:
  "loading (fst (submit_start initial_form))
   \<and> loading (foldl apply_edit (fst (submit_start initial_form)) [SetNote (str ''x'')])
   \<and> \<not> loading (fst (handleSubmit Resolved initial_form))
   \<and> \<not> loading (fst (handleSubmit (Rejected \<lparr>response_error = None\<rparr>) initial_form))
   \<and> \<not> loading
        (fst (handleSubmit (Rejected \<lparr>response_error = Some \<lparr>details = Some []\<rparr>\<rparr>) initial_form))"
  using loading_flag [of initial_form "[SetNote (str ''x'')]" Resolved]
    loading_flag [of initial_form "[]" "Rejected \<lparr>response_error = None\<rparr>"]
    loading_flag [of initial_form "[]" "Rejected \<lparr>response_error = Some \<lparr>details = Some []\<rparr>\<rparr>"]
  by blast

text \<open>
  Claim C8. Starting a submission clears both error displays, the generic message and
  the list of validation messages, in the step that issues the request, and they stay
  clear while the request is in flight; what the displays show after the submission
  does not depend on what they showed before it.
\<close>

theorem start_clears_errors:
  "error (fst (submit_start s)) = None
   \<and> validationErrors (fst (submit_start s)) = []
   \<and> snd (submit_start s) = [PreventDefault, CreateCheck (check_payload s)]
   \<and> error (foldl apply_edit (fst (submit_start s)) es) = None
   \<and> validationErrors (foldl apply_edit (fst (submit_start s)) es) = []
   \<and> error (fst (submission es r (s\<lparr>error := e, validationErrors := v\<rparr>)))
       = error (fst (submission es r s))
   \<and> validationErrors (fst (submission es r (s\<lparr>error := e, validationErrors := v\<rparr>)))
       = validationErrors (fst (submission es r s))"
proof -
  have a: "error (foldl apply_edit (fst (submit_start s)) es) = None"
    and b: "validationErrors (foldl apply_edit (fst (submit_start s)) es) = []" for s
    by (simp_all add: edits_error edits_validationErrors submit_start_state)
  have c: "error (fst (submit_settle r t)) =
      (case r of
         Resolved \<Rightarrow> None
       | Rejected err \<Rightarrow>
           (case error_details err of
              None \<Rightarrow> Some (str ''Failed to submit check. Please try again.'')
            | Some ds \<Rightarrow> None))"
    if "error t = None" for t
    using that
    by (cases r)
      (simp_all add: settle_resolved settle_rejected_details settle_rejected_plain
        split: option.splits)
  have d: "validationErrors (fst (submit_settle r t)) =
      (case r of
         Resolved \<Rightarrow> []
       | Rejected err \<Rightarrow>
           (case error_details err of
              None \<Rightarrow> []
            | Some ds \<Rightarrow> map (\<lambda>d. field d @ str '': '' @ reason d) ds))"
    if "validationErrors t = []" for t
    using that
    by (cases r)
      (simp_all add: settle_resolved settle_rejected_details settle_rejected_plain
        split: option.splits)
  show ?thesis
    by (simp add: submission_state a b c d submit_start_effects) (simp add: submit_start_state)
qed

theorem start_clears_errors_witness:
  "error (fst (submit_start
       (initial_form\<lparr>error := Some (str ''old''), validationErrors := [str ''stale'']\<rparr>))) = None
   \<and> validationErrors (fst (submit_start
       (initial_form\<lparr>error := Some (str ''old''), validationErrors := [str ''stale'']\<rparr>))) = []
   \<and> error (fst (submission [] Resolved
       (initial_form\<lparr>error := Some (str ''old''), validationErrors := [str ''stale'']\<rparr>))) = None
   \<and> validationErrors (fst (submission [] Resolved
       (initial_form\<lparr>error := Some (str ''old''), validationErrors := [str ''stale'']\<rparr>))) = []"
proof -
  have "error (fst (submission [] Resolved initial_form)) = None"
    "validationErrors (fst (submission [] Resolved initial_form)) = []"
    by (simp_all add: submission_state settle_resolved submit_start_state initial_form_def)
  with start_clears_errors
    [where s = "initial_form\<lparr>error := Some (str ''old''), validationErrors := [str ''stale'']\<rparr>"
      and es = "[]" and r = Resolved]
    start_clears_errors
    [where s = initial_form and es = "[]" and r = Resolved and e = "Some (str ''old'')"
      and v = "[str ''stale'']"]
  show ?thesis by simp
qed

text \<open>
  Claim C2. After a submission whose request succeeded, the checklist is the initial
  collection of five entries (TYRES, BRAKES, LIGHTS, OIL, COOLANT, all OK), the vehicle
  selection, the odometer text and the note text are their initial, empty values, and
  after the request the handler has emitted the success notification and then called
  the \<^verbatim>\<open>onSuccess\<close> hook, which takes no argument. Edits made while the request was in
  flight are reset as well.
\<close>

theorem success_resets_form:
  "items (fst (handleSubmit Resolved s)) = items initial_form
   \<and> items (fst (handleSubmit Resolved s)) =
       [\<lparr>key = TYRES, status = OK\<rparr>, \<lparr>key = BRAKES, status = OK\<rparr>,
        \<lparr>key = LIGHTS, status = OK\<rparr>, \<lparr>key = OIL, status = OK\<rparr>,
        \<lparr>key = COOLANT, status = OK\<rparr>]
   \<and> selectedVehicle (fst (handleSubmit Resolved s)) = selectedVehicle initial_form
   \<and> odometerKm (fst (handleSubmit Resolved s)) = odometerKm initial_form
   \<and> note (fst (handleSubmit Resolved s)) = note initial_form
   \<and> selectedVehicle initial_form = [] \<and> odometerKm initial_form = [] \<and> note initial_form = []
   \<and> snd (handleSubmit Resolved s) =
       [PreventDefault, CreateCheck (check_payload s),
        ShowToast (str ''Inspection submitted successfully.'') ToastSuccess, OnSuccess]
   \<and> items (fst (submission es Resolved s)) = items initial_form
   \<and> selectedVehicle (fst (submission es Resolved s)) = []
   \<and> odometerKm (fst (submission es Resolved s)) = []
   \<and> note (fst (submission es Resolved s)) = []"
proof -
  have f: "selectedVehicle initial_form = [] \<and> odometerKm initial_form = []
      \<and> note initial_form = []"
    by (simp add: initial_form_def)
  have ii: "items initial_form = initial_items"
    by (simp add: initial_form_def)
  have st: "items (fst (handleSubmit Resolved s)) = initial_items
      \<and> selectedVehicle (fst (handleSubmit Resolved s)) = []
      \<and> odometerKm (fst (handleSubmit Resolved s)) = []
      \<and> note (fst (handleSubmit Resolved s)) = []"
    by (simp add: handleSubmit_def submission_state settle_resolved)
  have fx: "snd (handleSubmit Resolved s) =
       [PreventDefault, CreateCheck (check_payload s),
        ShowToast (str ''Inspection submitted successfully.'') ToastSuccess, OnSuccess]"
    by (simp add: handleSubmit_def submission_effects settle_resolved submit_start_effects)
  have ed: "items (fst (submission es Resolved s)) = items initial_form
      \<and> selectedVehicle (fst (submission es Resolved s)) = []
      \<and> odometerKm (fst (submission es Resolved s)) = []
      \<and> note (fst (submission es Resolved s)) = []"
    by (simp add: submission_state settle_resolved ii)
  from initial_items_explicit f st ii fx ed show ?thesis
    by simp
qed

theorem success_resets_form_witness:
  "fst (handleSubmit Resolved
      (handleItemStatusChange OIL FAIL
         (initial_form\<lparr>selectedVehicle := str ''v7'', odometerKm := str ''120'',
                        note := str ''oil leak''\<rparr>))) = initial_form"
proof -
  define s where "s = handleItemStatusChange OIL FAIL
         (initial_form\<lparr>selectedVehicle := str ''v7'', odometerKm := str ''120'',
                        note := str ''oil leak''\<rparr>)"
  have r: "vehicles (fst (handleSubmit Resolved s)) = []
      \<and> \<not> loading (fst (handleSubmit Resolved s))
      \<and> error (fst (handleSubmit Resolved s)) = None
      \<and> validationErrors (fst (handleSubmit Resolved s)) = []"
    by (simp add: s_def handleSubmit_def submission_state settle_resolved submit_start_state
        handleItemStatusChange_def initial_form_def)
  have e: "t = initial_form"
    if "vehicles t = []" "selectedVehicle t = selectedVehicle initial_form"
      "odometerKm t = odometerKm initial_form" "note t = note initial_form"
      "items t = items initial_form" "\<not> loading t" "error t = None" "validationErrors t = []"
    for t
    using that by (cases t) (simp add: initial_form_def)
  from success_resets_form [of s "[]"] r have "fst (handleSubmit Resolved s) = initial_form"
    by (intro e) simp_all
  then show ?thesis
    by (simp only: s_def)
qed

text \<open>
  Claim C3. After a submission whose request failed, with details or without, the
  vehicle selection, the odometer text, the note text and the checklist are exactly
  what they were before: the form differs from the one submitted in its two error
  displays only, the loading flag being clear as it was when the form was idle. The same
  holds of the settlement alone, on whatever the form held when the request failed.
\<close>

theorem failure_keeps_fields:
  "selectedVehicle (fst (handleSubmit (Rejected err) s)) = selectedVehicle s
   \<and> odometerKm (fst (handleSubmit (Rejected err) s)) = odometerKm s
   \<and> note (fst (handleSubmit (Rejected err) s)) = note s
   \<and> items (fst (handleSubmit (Rejected err) s)) = items s
   \<and> fst (handleSubmit (Rejected err) s) =
       s\<lparr>error := error (fst (handleSubmit (Rejected err) s)),
         validationErrors := validationErrors (fst (handleSubmit (Rejected err) s)),
         loading := False\<rparr>
   \<and> (\<not> loading s \<longrightarrow>
        fst (handleSubmit (Rejected err) s) =
          s\<lparr>error := error (fst (handleSubmit (Rejected err) s)),
            validationErrors := validationErrors (fst (handleSubmit (Rejected err) s))\<rparr>)
   \<and> fst (submit_settle (Rejected err) t) =
       t\<lparr>error := error (fst (submit_settle (Rejected err) t)),
         validationErrors := validationErrors (fst (submit_settle (Rejected err) t)),
         loading := False\<rparr>"
proof (cases "error_details err")
  case None
  then show ?thesis
    by (simp add: handleSubmit_def submission_state settle_rejected_plain submit_start_state)
next
  case (Some ds)
  then show ?thesis
    by (simp add: handleSubmit_def submission_state settle_rejected_details submit_start_state)
qed

theorem failure_keeps_fields_witness:
  "\<not> loading (initial_form\<lparr>selectedVehicle := str ''v7'', odometerKm := str ''-5''\<rparr>)
   \<and> fst (handleSubmit
        (Rejected \<lparr>response_error = Some \<lparr>details =
           Some [\<lparr>field = str ''odometerKm'', reason = str ''must be positive''\<rparr>]\<rparr>\<rparr>)
        (initial_form\<lparr>selectedVehicle := str ''v7'', odometerKm := str ''-5''\<rparr>))
     = initial_form\<lparr>selectedVehicle := str ''v7'', odometerKm := str ''-5'',
         validationErrors := [str ''odometerKm: must be positive'']\<rparr>
   \<and> fst (handleSubmit (Rejected \<lparr>response_error = None\<rparr>)
        (initial_form\<lparr>selectedVehicle := str ''v7'', odometerKm := str ''-5''\<rparr>))
     = initial_form\<lparr>selectedVehicle := str ''v7'', odometerKm := str ''-5'',
         error := Some (str ''Failed to submit check. Please try again.'')\<rparr>"
proof -
  define s where "s = initial_form\<lparr>selectedVehicle := str ''v7'', odometerKm := str ''-5''\<rparr>"
  define e1 where "e1 = \<lparr>response_error = Some \<lparr>details =
           Some [\<lparr>field = str ''odometerKm'', reason = str ''must be positive''\<rparr>]\<rparr>\<rparr>"
  define e2 where "e2 = \<lparr>response_error = (None :: ErrorBody option)\<rparr>"
  have l: "\<not> loading s"
    by (simp add: s_def initial_form_def)
  have m: "str ''odometerKm'' @ str '': '' @ str ''must be positive''
      = str ''odometerKm: must be positive''"
    by (simp add: str_def)
  have d1: "error_details e1 =
      Some [\<lparr>field = str ''odometerKm'', reason = str ''must be positive''\<rparr>]"
    by (simp add: e1_def error_details_def)
  have d2: "error_details e2 = None"
    by (simp add: e2_def error_details_def)
  have v1: "error (fst (handleSubmit (Rejected e1) s)) = None
      \<and> validationErrors (fst (handleSubmit (Rejected e1) s)) = [str ''odometerKm: must be positive'']"
    by (simp add: handleSubmit_def submission_state settle_rejected_details [OF d1]
        submit_start_state m)
  have v2: "error (fst (handleSubmit (Rejected e2) s))
        = Some (str ''Failed to submit check. Please try again.'')
      \<and> validationErrors (fst (handleSubmit (Rejected e2) s)) = []"
    by (simp add: handleSubmit_def submission_state settle_rejected_plain [OF d2]
        submit_start_state)
  have i: "error s = None" "validationErrors s = []"
    by (simp_all add: s_def initial_form_def)
  from failure_keeps_fields [of e1 s] l v1
  have a: "fst (handleSubmit (Rejected e1) s)
      = s\<lparr>error := None, validationErrors := [str ''odometerKm: must be positive'']\<rparr>"
    by simp
  from failure_keeps_fields [of e2 s] l v2
  have b: "fst (handleSubmit (Rejected e2) s)
      = s\<lparr>error := Some (str ''Failed to submit check. Please try again.''), validationErrors := []\<rparr>"
    by simp
  have a': "s\<lparr>error := None, validationErrors := [str ''odometerKm: must be positive'']\<rparr>
      = s\<lparr>validationErrors := [str ''odometerKm: must be positive'']\<rparr>"
    using i by (cases s) simp
  have b': "s\<lparr>error := Some (str ''Failed to submit check. Please try again.''), validationErrors := []\<rparr>
      = s\<lparr>error := Some (str ''Failed to submit check. Please try again.'')\<rparr>"
    using i by (cases s) simp
  from l a b a' b' show ?thesis
    unfolding s_def e1_def e2_def by simp
qed

subsection \<open>The error displays\<close>

text \<open>
  Claim C10. Once a submission has resolved, at most one of the two error displays is
  populated: the generic message is set and the validation list is empty, or the
  validation list is populated and the generic message is null, or both are empty, as
  they are after a success; they are never populated together. This holds whatever was
  edited while the request was in flight.
\<close>

theorem error_displays_exclusive:
  "((error (fst (submission es r s)) \<noteq> None \<and> validationErrors (fst (submission es r s)) = [])
    \<or> (validationErrors (fst (submission es r s)) \<noteq> [] \<and> error (fst (submission es r s)) = None)
    \<or> (error (fst (submission es r s)) = None \<and> validationErrors (fst (submission es r s)) = []))
   \<and> \<not> (error (fst (submission es r s)) \<noteq> None
          \<and> validationErrors (fst (submission es r s)) \<noteq> [])
   \<and> \<not> (error (fst (handleSubmit r s)) \<noteq> None \<and> validationErrors (fst (handleSubmit r s)) \<noteq> [])
   \<and> error (fst (handleSubmit Resolved s)) = None
   \<and> validationErrors (fst (handleSubmit Resolved s)) = []"
proof -
  have g: "\<not> (error (fst (submit_settle r t)) \<noteq> None
              \<and> validationErrors (fst (submit_settle r t)) \<noteq> [])"
    if t: "error t = None" "validationErrors t = []" for t
  proof (cases r)
    case Resolved
    with t show ?thesis
      by (simp add: settle_resolved)
  next
    case (Rejected err)
    with t show ?thesis
      by (cases "error_details err") (simp_all add: settle_rejected_plain settle_rejected_details)
  qed
  have "error (foldl apply_edit (fst (submit_start s)) es) = None"
    "validationErrors (foldl apply_edit (fst (submit_start s)) es) = []"
    by (simp_all add: edits_error edits_validationErrors submit_start_state)
  then have a: "\<not> (error (fst (submission es r s)) \<noteq> None
                   \<and> validationErrors (fst (submission es r s)) \<noteq> [])"
    unfolding submission_state by (rule g)
  have "error (fst (submit_start s)) = None" "validationErrors (fst (submit_start s)) = []"
    by (simp_all add: submit_start_state)
  then have "\<not> (error (fst (submit_settle r (fst (submit_start s)))) \<noteq> None
           \<and> validationErrors (fst (submit_settle r (fst (submit_start s)))) \<noteq> [])"
    by (rule g)
  then have b: "\<not> (error (fst (handleSubmit r s)) \<noteq> None
                   \<and> validationErrors (fst (handleSubmit r s)) \<noteq> [])"
    by (simp add: handleSubmit_def submission_state)
  have c: "error (fst (handleSubmit Resolved s)) = None
      \<and> validationErrors (fst (handleSubmit Resolved s)) = []"
    by (simp add: handleSubmit_def submission_state settle_resolved submit_start_state)
  from a b c show ?thesis
    by auto
qed

theorem error_displays_exclusive_witness:
  "error (fst (handleSubmit (Rejected \<lparr>response_error = Some \<lparr>details = None\<rparr>\<rparr>)
       (initial_form\<lparr>validationErrors := [str ''stale'']\<rparr>)))
     = Some (str ''Failed to submit check. Please try again.'')
   \<and> validationErrors (fst (handleSubmit (Rejected \<lparr>response_error = Some \<lparr>details = None\<rparr>\<rparr>)
       (initial_form\<lparr>validationErrors := [str ''stale'']\<rparr>))) = []"
proof -
  define s where "s = initial_form\<lparr>validationErrors := [str ''stale'']\<rparr>"
  define e where "e = \<lparr>response_error = Some \<lparr>details = None\<rparr>\<rparr>"
  have d: "error_details e = None"
    by (simp add: e_def error_details_def)
  have a: "error (fst (handleSubmit (Rejected e) s))
      = Some (str ''Failed to submit check. Please try again.'')"
    by (simp add: handleSubmit_def submission_state settle_rejected_plain [OF d])
  with error_displays_exclusive [of "[]" "Rejected e" s]
  have "validationErrors (fst (handleSubmit (Rejected e) s)) = []"
    by simp
  with a show ?thesis
    unfolding s_def e_def by simp
qed

subsection \<open>The classification of a failed request\<close>

text \<open>
  Claim C1, as amended. For every error of a rejected request, the submission ends as
  ValidationFailed exactly when the error object exposes a details list, empty or not:
  the mapped \<^verbatim>\<open>field: reason\<close> strings are recorded, and the notification carries the
  first of them, or \<^verbatim>\<open>Validation failed.\<close> when there is none. It ends as GenericFailed
  exactly when the error object exposes no details list: the single generic message is
  recorded and notified. The two outcomes exclude each other and no third one exists.
\<close>

theorem rejection_classified:
  "(error_details err \<noteq> None \<longleftrightarrow> (\<exists>ms. validation_failed ms (handleSubmit (Rejected err) s)))
   \<and> (error_details err = None \<longleftrightarrow> generic_failed (handleSubmit (Rejected err) s))
   \<and> (\<forall>ds. error_details err = Some ds \<longrightarrow>
         validation_failed (map (\<lambda>d. field d @ str '': '' @ reason d) ds)
           (handleSubmit (Rejected err) s))
   \<and> \<not> ((\<exists>ms. validation_failed ms (handleSubmit (Rejected err) s))
          \<and> generic_failed (handleSubmit (Rejected err) s))"
proof (cases "error_details err")
  case None
  then show ?thesis
    by (simp add: handleSubmit_def submission_def submit_start_def settle_rejected_plain
        validation_failed_def generic_failed_def)
next
  case (Some ds)
  then show ?thesis
    by (simp add: handleSubmit_def submission_def submit_start_def settle_rejected_details
        validation_failed_def generic_failed_def)
qed

theorem rejection_classified_witness:
  "error_details \<lparr>response_error = Some \<lparr>details =
       Some [\<lparr>field = str ''odometerKm'', reason = str ''must be positive''\<rparr>]\<rparr>\<rparr>
     = Some [\<lparr>field = str ''odometerKm'', reason = str ''must be positive''\<rparr>]
   \<and> validation_failed [str ''odometerKm: must be positive'']
       (handleSubmit (Rejected \<lparr>response_error = Some \<lparr>details =
          Some [\<lparr>field = str ''odometerKm'', reason = str ''must be positive''\<rparr>]\<rparr>\<rparr>) initial_form)
   \<and> ShowToast (str ''odometerKm: must be positive'') ToastError
       \<in> set (snd (handleSubmit (Rejected \<lparr>response_error = Some \<lparr>details =
          Some [\<lparr>field = str ''odometerKm'', reason = str ''must be positive''\<rparr>]\<rparr>\<rparr>) initial_form))"
proof -
  define e where "e = \<lparr>response_error = Some \<lparr>details =
       Some [\<lparr>field = str ''odometerKm'', reason = str ''must be positive''\<rparr>]\<rparr>\<rparr>"
  have d: "error_details e = Some [\<lparr>field = str ''odometerKm'', reason = str ''must be positive''\<rparr>]"
    by (simp add: e_def error_details_def)
  have m: "str ''odometerKm'' @ str '': '' @ str ''must be positive''
      = str ''odometerKm: must be positive''"
    by (simp add: str_def)
  from rejection_classified [of e initial_form] d
  have "validation_failed
      (map (\<lambda>d. field d @ str '': '' @ reason d)
        [\<lparr>field = str ''odometerKm'', reason = str ''must be positive''\<rparr>])
      (handleSubmit (Rejected e) initial_form)"
    by blast
  then have v: "validation_failed [str ''odometerKm: must be positive'']
      (handleSubmit (Rejected e) initial_form)"
    by (simp add: m)
  then have "ShowToast (str ''odometerKm: must be positive'') ToastError
      \<in> set (snd (handleSubmit (Rejected e) initial_form))"
    by (simp add: validation_failed_def)
  with d v show ?thesis
    unfolding e_def by simp
qed

text \<open>
  Claim C1 as the specification words it asks for a non-empty details list. An error
  whose details list is empty does not expose one, yet its submission does not end as
  GenericFailed: no generic message is recorded, the form is left as it was, and the
  notification is \<^verbatim>\<open>Validation failed.\<close>
\<close>

theorem classification_counterexample:
  "error_details \<lparr>response_error = Some \<lparr>details = Some []\<rparr>\<rparr> = Some []
   \<and> \<not> generic_failed
        (handleSubmit (Rejected \<lparr>response_error = Some \<lparr>details = Some []\<rparr>\<rparr>) initial_form)
   \<and> handleSubmit (Rejected \<lparr>response_error = Some \<lparr>details = Some []\<rparr>\<rparr>) initial_form =
       (initial_form,
        [PreventDefault, CreateCheck (check_payload initial_form),
         ShowToast (str ''Validation failed.'') ToastError])"
  by (simp add: handleSubmit_def submission_def submit_start_def submit_settle_def
      on_rejected_def error_details_def generic_failed_def initial_form_def)

end
